theory Spec2Isabelle
  imports Main
begin

section \<open>JavaScript strings\<close>

text \<open>
  A JavaScript string is a sequence of UTF-16 code units. The model keeps each code unit
  as a natural number, so that \<open>length\<close> counts what \<open>String.prototype.length\<close>
  counts and every literal of \<open>services/keywordService.ts\<close> (Hangul included) is the
  literal of the source. \<open>js\<close> embeds an ASCII literal.
\<close>

type_synonym jstring = "nat list"

definition js :: "string \<Rightarrow> jstring" where
  "js s = map of_char s"

abbreviation LBRACKET :: nat where "LBRACKET \<equiv> 0x5B"
abbreviation RBRACKET :: nat where "RBRACKET \<equiv> 0x5D"
abbreviation LBRACE :: nat where "LBRACE \<equiv> 0x7B"
abbreviation RBRACE :: nat where "RBRACE \<equiv> 0x7D"
abbreviation BACKSLASH :: nat where "BACKSLASH \<equiv> 0x5C"
abbreviation DQUOTE :: nat where "DQUOTE \<equiv> 0x22"
abbreviation BACKTICK :: nat where "BACKTICK \<equiv> 0x60"
abbreviation LESS_THAN :: nat where "LESS_THAN \<equiv> 0x3C"
abbreviation GREATER_THAN :: nat where "GREATER_THAN \<equiv> 0x3E"
abbreviation COMMA :: nat where "COMMA \<equiv> 0x2C"
abbreviation SPACE :: nat where "SPACE \<equiv> 0x20"

text \<open>
  The code units that \<open>String.prototype.trim\<close> strips and the regular expression class
  \<open>\s\<close> matches: ECMAScript WhiteSpace and LineTerminator.
\<close>

definition isWhiteSpace :: "nat \<Rightarrow> bool" where
  "isWhiteSpace c \<longleftrightarrow>
     c = 0x09 \<or> c = 0x0A \<or> c = 0x0B \<or> c = 0x0C \<or> c = 0x0D \<or> c = 0x20 \<or> c = 0xA0
     \<or> c = 0x1680 \<or> (0x2000 \<le> c \<and> c \<le> 0x200A) \<or> c = 0x2028 \<or> c = 0x2029
     \<or> c = 0x202F \<or> c = 0x205F \<or> c = 0x3000 \<or> c = 0xFEFF"

text \<open>The regular expression class \<open>\d\<close>.\<close>

definition isDigit :: "nat \<Rightarrow> bool" where
  "isDigit c \<longleftrightarrow> 0x30 \<le> c \<and> c \<le> 0x39"

definition trim :: "jstring \<Rightarrow> jstring" where
  "trim s = rev (dropWhile isWhiteSpace (rev (dropWhile isWhiteSpace s)))"

fun startsWith :: "jstring \<Rightarrow> jstring \<Rightarrow> bool" where
  "startsWith s [] = True"
| "startsWith [] (p # ps) = False"
| "startsWith (c # cs) (p # ps) = (c = p \<and> startsWith cs ps)"

fun jsIncludes :: "jstring \<Rightarrow> jstring \<Rightarrow> bool" where
  "jsIncludes [] needle = (needle = [])"
| "jsIncludes (c # cs) needle = (startsWith (c # cs) needle \<or> jsIncludes cs needle)"

text \<open>\<open>s.lastIndexOf(ch)\<close> for a one-unit search string: the last index, or \<open>-1\<close>.\<close>

fun lastIndexOf :: "jstring \<Rightarrow> nat \<Rightarrow> int" where
  "lastIndexOf [] ch = -1"
| "lastIndexOf (c # cs) ch =
     (let r = lastIndexOf cs ch
      in if r \<noteq> -1 then r + 1 else if c = ch then 0 else -1)"

text \<open>
  \<open>s.substring(a, b)\<close>: both arguments are clamped to \<open>[0, length]\<close> and swapped
  when the first exceeds the second.
\<close>

definition substring :: "jstring \<Rightarrow> int \<Rightarrow> int \<Rightarrow> jstring" where
  "substring s a b =
     (let n = int (length s);
          a' = max 0 (min a n);
          b' = max 0 (min b n);
          lo = min a' b';
          hi = max a' b'
      in take (nat (hi - lo)) (drop (nat lo) s))"

text \<open>The decimal digits of a non-negative integer, as a template literal prints it.\<close>

function decimal :: "nat \<Rightarrow> jstring" where
  "decimal n = (if n < 10 then [0x30 + n] else decimal (n div 10) @ [0x30 + n mod 10])"
  by pat_completeness auto
termination
  by (relation "measure id") auto

subsection \<open>Global replacement and testing with a regular expression\<close>

text \<open>
  The regular expressions of the source have no anchors and no look-behind: whether
  one matches at a position, and how far, depends on the text from that position on. A
  matcher is therefore a function from that suffix to the length of the match.
  \<open>replaceAll m s\<close> is \<open>s.replace(/.../g, '')\<close>: scanning from the left, each match is
  dropped and the search resumes after it; an empty match drops nothing and the scan
  moves one unit on.
\<close>

type_synonym matcher = "jstring \<Rightarrow> nat option"

fun replaceAll :: "matcher \<Rightarrow> jstring \<Rightarrow> jstring" where
  "replaceAll m [] = []"
| "replaceAll m (c # cs) =
     (case m (c # cs) of
        None \<Rightarrow> c # replaceAll m cs
      | Some n \<Rightarrow> if n = 0 then c # replaceAll m cs else replaceAll m (drop (n - 1) cs))"

text \<open>\<open>regexTest m s\<close> is \<open>/.../.test(s)\<close>: the expression matches somewhere in \<open>s\<close>.\<close>

fun regexTest :: "matcher \<Rightarrow> jstring \<Rightarrow> bool" where
  "regexTest m [] = (m [] \<noteq> None)"
| "regexTest m (c # cs) = (m (c # cs) \<noteq> None \<or> regexTest m cs)"

section \<open>JavaScript values and exceptions\<close>

text \<open>
  The values that \<open>JSON.parse\<close> and \<open>Response.json\<close> produce. The code tests numbers
  for truthiness only, so a number is kept as an integer. An object is the list of its
  own properties; a property that is absent reads as \<open>undefined\<close> (\<open>None\<close>).
\<close>

datatype json =
    JNull
  | JBool bool
  | JNum int
  | JStr jstring
  | JArr "json list"
  | JObj "(jstring \<times> json) list"

datatype error_class = PlainError | TypeError | SyntaxError | DOMException

datatype js_error = JsError (err_class: error_class) (message: jstring)

text \<open>
  What a \<open>throw\<close> or a rejected promise carries: an instance of \<open>Error\<close> (of some
  class), or any other value.
\<close>

datatype thrown = ErrorObject js_error | NonError json

definition new_Error :: "jstring \<Rightarrow> thrown" where
  "new_Error msg = ErrorObject (JsError PlainError msg)"

fun truthy :: "json \<Rightarrow> bool" where
  "truthy JNull = False"
| "truthy (JBool b) = b"
| "truthy (JNum n) = (n \<noteq> 0)"
| "truthy (JStr s) = (s \<noteq> [])"
| "truthy (JArr xs) = True"
| "truthy (JObj kvs) = True"

text \<open>\<open>truthyOpt\<close> extends truthiness to \<open>undefined\<close>, which is falsy.\<close>

definition truthyOpt :: "json option \<Rightarrow> bool" where
  "truthyOpt v = (case v of None \<Rightarrow> False | Some x \<Rightarrow> truthy x)"

definition MSG_NULL_PROPERTY :: jstring where
  "MSG_NULL_PROPERTY = js ''Cannot read properties of null''"

text \<open>
  \<open>v.name\<close> for the property names the source reads (\<open>contents\<close>, \<open>items\<close>,
  \<open>related_searches\<close>, \<open>people_also_ask\<close>, \<open>question\<close>, \<open>answer\<close>,
  \<open>content_gap_analysis\<close>), none of which a primitive or an array carries: reading one
  from \<open>null\<close> throws a TypeError, from an object gives the property or \<open>undefined\<close>,
  from anything else gives \<open>undefined\<close>.
\<close>

fun getProp :: "json \<Rightarrow> jstring \<Rightarrow> thrown + json option" where
  "getProp JNull name = Inl (ErrorObject (JsError TypeError MSG_NULL_PROPERTY))"
| "getProp (JObj kvs) name = Inr (map_of kvs name)"
| "getProp v name = Inr None"

text \<open>\<open>Array.isArray\<close>, on a value that may be \<open>undefined\<close>.\<close>

fun isArray :: "json option \<Rightarrow> bool" where
  "isArray (Some (JArr xs)) = True"
| "isArray v = False"

section \<open>The tolerant JSON extractor\<close>

definition MSG_NO_JSON :: jstring where
  "MSG_NO_JSON = js ''AI '' @ [0xC751, 0xB2F5, 0xC5D0, 0xC11C] @ js '' '' @ [0xC720, 0xD6A8, 0xD55C] @ js '' JSON'' @ [0xC744] @ js '' '' @ [0xCC3E, 0xC744] @ js '' '' @ [0xC218] @ js '' '' @ [0xC5C6, 0xC2B5, 0xB2C8, 0xB2E4] @ js ''.''"

definition MSG_NO_JSON_END :: jstring where
  "MSG_NO_JSON_END = js ''AI '' @ [0xC751, 0xB2F5, 0xC5D0, 0xC11C] @ js '' '' @ [0xC720, 0xD6A8, 0xD55C] @ js '' JSON'' @ [0xC758] @ js '' '' @ [0xB05D, 0xC744] @ js '' '' @ [0xCC3E, 0xC744] @ js '' '' @ [0xC218] @ js '' '' @ [0xC5C6, 0xC2B5, 0xB2C8, 0xB2E4] @ js ''.''"

definition MSG_BAD_FORMAT_PREFIX :: jstring where
  "MSG_BAD_FORMAT_PREFIX = js ''AI'' @ [0xAC00] @ js '' '' @ [0xBC18, 0xD658, 0xD55C] @ js '' '' @ [0xB370, 0xC774, 0xD130, 0xC758] @ js '' '' @ [0xD615, 0xC2DD, 0xC774] @ js '' '' @ [0xC798, 0xBABB, 0xB418, 0xC5C8, 0xC2B5, 0xB2C8, 0xB2E4] @ js ''. '' @ [0xC624, 0xB958] @ js '': ''"

definition MSG_BAD_FORMAT :: jstring where
  "MSG_BAD_FORMAT = js ''AI'' @ [0xAC00] @ js '' '' @ [0xBC18, 0xD658, 0xD55C] @ js '' '' @ [0xB370, 0xC774, 0xD130, 0xC758] @ js '' '' @ [0xD615, 0xC2DD, 0xC774] @ js '' '' @ [0xC798, 0xBABB, 0xB418, 0xC5C8, 0xC2B5, 0xB2C8, 0xB2E4] @ js ''.''"

subsection \<open>The fenced code block\<close>

text \<open>
  Line 56 matches \<^verbatim>\<open>/```(?:json)?\s*([\s\S]*?)\s*```/\<close> and line 57 reads capture
  group 1. The matcher below follows the backtracking order of the expression.
  \<open>closesFence s\<close>: \<^verbatim>\<open>\s*```\<close> matches at the start of \<open>s\<close> (white space is not
  a backtick, so only the longest run of it can be followed by the fence).
  \<open>lazyCapture s\<close>: the lazy group takes the shortest prefix after which the closing
  part matches. \<open>fenceOpenings r\<close>: the places where the group may begin in the text
  \<open>r\<close> after the opening fence, in the order they are tried: with the label taken (when
  it is there) before without it, and the greedy \<^verbatim>\<open>\s*\<close> giving back one unit at a
  time.
\<close>

definition FENCE :: jstring where
  "FENCE = js ''```''"

definition closesFence :: "jstring \<Rightarrow> bool" where
  "closesFence s = startsWith (dropWhile isWhiteSpace s) FENCE"

fun lazyCapture :: "jstring \<Rightarrow> jstring option" where
  "lazyCapture [] = (if closesFence [] then Some [] else None)"
| "lazyCapture (c # cs) =
     (if closesFence (c # cs) then Some [] else map_option ((#) c) (lazyCapture cs))"

definition spaceBackoff :: "jstring \<Rightarrow> jstring list" where
  "spaceBackoff r = map (\<lambda>n. drop n r) (rev [0..<Suc (length (takeWhile isWhiteSpace r))])"

definition fenceOpenings :: "jstring \<Rightarrow> jstring list" where
  "fenceOpenings r =
     (if startsWith r (js ''json'') then spaceBackoff (drop 4 r) else []) @ spaceBackoff r"

fun firstCapture :: "jstring list \<Rightarrow> jstring option" where
  "firstCapture [] = None"
| "firstCapture (r # rs) =
     (case lazyCapture r of Some cap \<Rightarrow> Some cap | None \<Rightarrow> firstCapture rs)"

text \<open>The leftmost match of the whole expression; the result is capture group 1.\<close>

fun matchFence :: "jstring \<Rightarrow> jstring option" where
  "matchFence [] = None"
| "matchFence (c # cs) =
     (if startsWith (c # cs) FENCE
      then (case firstCapture (fenceOpenings (drop 3 (c # cs))) of
              Some cap \<Rightarrow> Some cap
            | None \<Rightarrow> matchFence cs)
      else matchFence cs)"

text \<open>Lines 53 to 59: the text that is searched for a JSON value.\<close>

definition searchText :: "jstring \<Rightarrow> jstring" where
  "searchText text =
     (let jsonString = trim text
      in case matchFence jsonString of
           None \<Rightarrow> jsonString
         | Some cap \<Rightarrow> if cap \<noteq> [] then trim cap else jsonString)"

subsection \<open>Start and end of the value\<close>

text \<open>Line 61, \<^verbatim>\<open>jsonString.search(/[[{]/)\<close>: the first bracket or brace, or \<open>-1\<close>.\<close>

fun searchOpen :: "jstring \<Rightarrow> int" where
  "searchOpen [] = -1"
| "searchOpen (c # cs) =
     (if c = LBRACKET \<or> c = LBRACE then 0
      else (let r = searchOpen cs in if r = -1 then -1 else r + 1))"

text \<open>
  Lines 74 to 101, the loop over \<open>i\<close>: \<open>scan\<close> is called on the text from index \<open>i\<close> on
  and returns \<open>endIndex\<close>, which is still \<open>-1\<close> when the loop runs off the end.
\<close>

fun scan :: "nat \<Rightarrow> nat \<Rightarrow> int \<Rightarrow> bool \<Rightarrow> bool \<Rightarrow> int \<Rightarrow> jstring \<Rightarrow> int" where
  "scan startChar endChar openCount inString escapeChar i [] = -1"
| "scan startChar endChar openCount inString escapeChar i (c # cs) =
     (if escapeChar then scan startChar endChar openCount inString False (i + 1) cs
      else if c = BACKSLASH then scan startChar endChar openCount inString True (i + 1) cs
      else
        (let inString' = (if c = DQUOTE then \<not> inString else inString);
             openCount' =
               (if \<not> inString'
                then (if c = startChar then openCount + 1
                      else if c = endChar then openCount - 1
                      else openCount)
                else openCount)
         in if openCount' = 0 then i
            else scan startChar endChar openCount' inString' False (i + 1) cs))"

text \<open>Lines 66 to 101: the end index found by balancing, or \<open>-1\<close>.\<close>

definition balancedEnd :: "jstring \<Rightarrow> int \<Rightarrow> int" where
  "balancedEnd jsonString startIndex =
     (let startChar = jsonString ! nat startIndex;
          endChar = (if startChar = LBRACKET then RBRACKET else RBRACE)
      in scan startChar endChar 0 False False startIndex (drop (nat startIndex) jsonString))"

text \<open>Lines 103 to 108: the fallback to the last closing brace or bracket.\<close>

definition endIndexOf :: "jstring \<Rightarrow> int \<Rightarrow> int" where
  "endIndexOf jsonString startIndex =
     (let endIndex = balancedEnd jsonString startIndex
      in if endIndex = -1
         then max (lastIndexOf jsonString RBRACE) (lastIndexOf jsonString RBRACKET)
         else endIndex)"

text \<open>
  Lines 53 to 114: the string \<open>potentialJson\<close> that is handed to the parser, or the error
  thrown before the parser is reached.
\<close>

definition potentialJson :: "jstring \<Rightarrow> thrown + jstring" where
  "potentialJson text =
     (let jsonString = searchText text;
          startIndex = searchOpen jsonString
      in if startIndex = -1 then Inl (new_Error MSG_NO_JSON)
         else
           (let endIndex = endIndexOf jsonString startIndex
            in if endIndex = -1 then Inl (new_Error MSG_NO_JSON_END)
               else Inr (substring jsonString startIndex (endIndex + 1))))"

text \<open>
  Lines 116 to 125: the candidate is parsed, and what the parser throws is wrapped.
  \<open>JSON.parse\<close> belongs to the platform and is a parameter: it maps the value it is given
  to the parsed value or to what it throws.
\<close>

definition parseCandidate :: "(json \<Rightarrow> thrown + json) \<Rightarrow> jstring \<Rightarrow> thrown + json" where
  "parseCandidate JSON_parse candidate =
     (case JSON_parse (JStr candidate) of
        Inr v \<Rightarrow> Inr v
      | Inl (ErrorObject e) \<Rightarrow> Inl (new_Error (MSG_BAD_FORMAT_PREFIX @ message e))
      | Inl (NonError v) \<Rightarrow> Inl (new_Error MSG_BAD_FORMAT))"

text \<open>\<open>extractJsonFromText\<close>, lines 52 to 126.\<close>

definition extractJsonFromText :: "(json \<Rightarrow> thrown + json) \<Rightarrow> jstring \<Rightarrow> thrown + json" where
  "extractJsonFromText JSON_parse text' =
     (case potentialJson text' of
        Inl e \<Rightarrow> Inl e
      | Inr candidate \<Rightarrow> parseCandidate JSON_parse candidate)"

section \<open>The resilient fetcher\<close>

subsection \<open>Responses and proxy strategies\<close>

text \<open>
  A \<open>Response\<close> as the code reads it: the status, and what \<open>response.text()\<close> and
  \<open>response.json()\<close> settle to. \<open>response.ok\<close> is true for the statuses 200 to 299.
\<close>

record response =
  status :: nat
  body_text :: "thrown + jstring"
  body_json :: "thrown + json"

definition ok :: "response \<Rightarrow> bool" where
  "ok r \<longleftrightarrow> 200 \<le> status r \<and> status r \<le> 299"

text \<open>
  The interface \<open>Proxy\<close>, lines 11 to 15. \<open>parseResponse\<close> is declared to give a
  string; the relay decides what it really gives, so the model keeps a value.
\<close>

record proxy =
  name :: jstring
  buildUrl :: "jstring \<Rightarrow> jstring"
  parseResponse :: "response \<Rightarrow> thrown + json"

definition MSG_ALLORIGINS :: jstring where
  "MSG_ALLORIGINS = js ''allorigins.win: Invalid JSON response structure.''"

text \<open>\<^verbatim>\<open>(response) => response.text()\<close>, lines 21 and 37.\<close>

definition textResponse :: "response \<Rightarrow> thrown + json" where
  "textResponse r = (case body_text r of Inl e \<Rightarrow> Inl e | Inr s \<Rightarrow> Inr (JStr s))"

text \<open>Lines 26 to 32: the relay that wraps the payload in a field \<open>contents\<close>.\<close>

definition alloriginsResponse :: "response \<Rightarrow> thrown + json" where
  "alloriginsResponse r =
     (case body_json r of
        Inl e \<Rightarrow> Inl e
      | Inr data \<Rightarrow>
          if truthy data
          then (case getProp data (js ''contents'') of
                  Inl e \<Rightarrow> Inl e
                | Inr None \<Rightarrow> Inl (new_Error MSG_ALLORIGINS)
                | Inr (Some contents) \<Rightarrow>
                    if truthy contents then Inr contents else Inl (new_Error MSG_ALLORIGINS))
          else Inl (new_Error MSG_ALLORIGINS))"

text \<open>
  The list \<open>PROXIES\<close>, lines 17 to 39. \<open>encodeURIComponent\<close> belongs to the platform and
  is a parameter.
\<close>

definition PROXIES :: "(jstring \<Rightarrow> jstring) \<Rightarrow> proxy list" where
  "PROXIES encodeURIComponent =
     [\<lparr>name = js ''corsproxy.io'',
       buildUrl = (\<lambda>url. js ''https://corsproxy.io/?'' @ encodeURIComponent url),
       parseResponse = textResponse\<rparr>,
      \<lparr>name = js ''allorigins.win (JSON)'',
       buildUrl = (\<lambda>url. js ''https://api.allorigins.win/get?url='' @ encodeURIComponent url),
       parseResponse = alloriginsResponse\<rparr>,
      \<lparr>name = js ''thingproxy.freeboard.io'',
       buildUrl = (\<lambda>url. js ''https://thingproxy.freeboard.io/fetch/'' @ url),
       parseResponse = textResponse\<rparr>]"

definition MAX_RETRIES_PER_PROXY :: nat where
  "MAX_RETRIES_PER_PROXY = 2"

definition RETRY_DELAY_MS :: nat where
  "RETRY_DELAY_MS = 1000"

definition FETCH_TIMEOUT_MS :: nat where
  "FETCH_TIMEOUT_MS = 15000"

subsection \<open>One request with a timeout\<close>

text \<open>
  What the platform's \<open>fetch\<close> does with one request: the milliseconds it takes to
  settle, and what it settles to (a rejection or a response).
\<close>

type_synonym fetch_behaviour = "nat \<times> (thrown + response)"

text \<open>
  \<open>fetchWithTimeout\<close>, lines 129 to 143. Line 132 arms a timer that calls
  \<^verbatim>\<open>controller.abort('Timeout')\<close>; line 141 disarms it once \<open>fetch\<close> has settled. A
  \<open>fetch\<close> whose signal is aborted rejects with the signal's abort reason, which is the
  argument of \<open>abort\<close>: here the string \<^verbatim>\<open>'Timeout'\<close>, not an \<open>Error\<close>.
\<close>

definition ABORT_REASON :: json where
  "ABORT_REASON = JStr (js ''Timeout'')"

definition fetchWithTimeout :: "(jstring \<Rightarrow> fetch_behaviour) \<Rightarrow> jstring \<Rightarrow> nat \<Rightarrow> thrown + response" where
  "fetchWithTimeout fetch resource timeout =
     (case fetch resource of
        (latency, settled) \<Rightarrow> if latency < timeout then settled else Inl (NonError ABORT_REASON))"

subsection \<open>The retry loops\<close>

definition MSG_HTTP_PREFIX :: jstring where
  "MSG_HTTP_PREFIX = js ''HTTP '' @ [0xC624, 0xB958] @ js ''! '' @ [0xC0C1, 0xD0DC] @ js '': ''"

definition MSG_EMPTY_CONTENT :: jstring where
  "MSG_EMPTY_CONTENT = [0xD504, 0xB85D, 0xC2DC, 0xC5D0, 0xC11C] @ js '' '' @ [0xBE48] @ js '' '' @ [0xCF58, 0xD150, 0xCE20, 0xB97C] @ js '' '' @ [0xBC18, 0xD658, 0xD588, 0xC2B5, 0xB2C8, 0xB2E4] @ js ''.''"

definition MSG_UNKNOWN_REQUEST :: jstring where
  "MSG_UNKNOWN_REQUEST = [0xC54C] @ js '' '' @ [0xC218] @ js '' '' @ [0xC5C6, 0xB294] @ js '' '' @ [0xC694, 0xCCAD] @ js '' '' @ [0xC624, 0xB958, 0xAC00] @ js '' '' @ [0xBC1C, 0xC0DD, 0xD588, 0xC2B5, 0xB2C8, 0xB2E4] @ js ''.''"

definition MSG_TIMEOUT :: jstring where
  "MSG_TIMEOUT = [0xC694, 0xCCAD] @ js '' '' @ [0xC2DC, 0xAC04, 0xC774] @ js '' '' @ [0xCD08, 0xACFC, 0xB418, 0xC5C8, 0xC2B5, 0xB2C8, 0xB2E4] @ js ''. '' @ [0xB124, 0xD2B8, 0xC6CC, 0xD06C] @ js '' '' @ [0xC5F0, 0xACB0, 0xC774] @ js '' '' @ [0xB290, 0xB9AC, 0xAC70, 0xB098] @ js '' '' @ [0xBAA8, 0xB4E0] @ js '' '' @ [0xD504, 0xB85D, 0xC2DC] @ js '' '' @ [0xC11C, 0xBC84, 0xAC00] @ js '' '' @ [0xC751, 0xB2F5, 0xD558, 0xC9C0] @ js '' '' @ [0xC54A, 0xC2B5, 0xB2C8, 0xB2E4] @ js ''.''"

definition MSG_NETWORK :: jstring where
  "MSG_NETWORK = [0xB124, 0xD2B8, 0xC6CC, 0xD06C] @ js '' '' @ [0xC694, 0xCCAD, 0xC5D0] @ js '' '' @ [0xC2E4, 0xD328, 0xD588, 0xC2B5, 0xB2C8, 0xB2E4] @ js ''. '' @ [0xBAA8, 0xB4E0] @ js '' '' @ [0xD504, 0xB85D, 0xC2DC] @ js '' '' @ [0xC11C, 0xBC84, 0xC5D0] @ js '' '' @ [0xC5F0, 0xACB0, 0xD560] @ js '' '' @ [0xC218] @ js '' '' @ [0xC5C6, 0xC2B5, 0xB2C8, 0xB2E4] @ js ''. '' @ [0xC778, 0xD130, 0xB137] @ js '' '' @ [0xC5F0, 0xACB0] @ js '', '' @ [0xBE0C, 0xB77C, 0xC6B0, 0xC800, 0xC758] @ js '' '' @ [0xAD11, 0xACE0] @ js '' '' @ [0xCC28, 0xB2E8, 0xAE30] @ js ''(AdBlocker) '' @ [0xB610, 0xB294] @ js '' '' @ [0xBCF4, 0xC548] @ js '' '' @ [0xC124, 0xC815, 0xC744] @ js '' '' @ [0xD655, 0xC778, 0xD558, 0xAC70, 0xB098] @ js '' '' @ [0xC7A0, 0xC2DC] @ js '' '' @ [0xD6C4] @ js '' '' @ [0xB2E4, 0xC2DC] @ js '' '' @ [0xC2DC, 0xB3C4, 0xD574] @ js '' '' @ [0xC8FC, 0xC138, 0xC694] @ js ''.''"

definition MSG_ALL_FAILED_PREFIX :: jstring where
  "MSG_ALL_FAILED_PREFIX = [0xBAA8, 0xB4E0] @ js '' '' @ [0xD504, 0xB85D, 0xC2DC] @ js '' '' @ [0xC11C, 0xBC84, 0xC5D0, 0xC11C] @ js '' '' @ [0xB370, 0xC774, 0xD130, 0xB97C] @ js '' '' @ [0xAC00, 0xC838, 0xC624, 0xB294] @ js '' '' @ [0xB370] @ js '' '' @ [0xC2E4, 0xD328, 0xD588, 0xC2B5, 0xB2C8, 0xB2E4] @ js ''. '' @ [0xB9C8, 0xC9C0, 0xB9C9] @ js '' '' @ [0xC624, 0xB958] @ js '': ''"

definition MSG_UNKNOWN :: jstring where
  "MSG_UNKNOWN = [0xC54C] @ js '' '' @ [0xC218] @ js '' '' @ [0xC5C6, 0xB294] @ js '' '' @ [0xC624, 0xB958]"

definition MSG_ALL_FAILED_SUFFIX :: jstring where
  "MSG_ALL_FAILED_SUFFIX = js ''. '' @ [0xC7A0, 0xC2DC] @ js '' '' @ [0xD6C4] @ js '' '' @ [0xB2E4, 0xC2DC] @ js '' '' @ [0xC2DC, 0xB3C4, 0xD574] @ js '' '' @ [0xC8FC, 0xC138, 0xC694] @ js ''.''"

definition MSG_NO_DATA :: jstring where
  "MSG_NO_DATA = [0xB370, 0xC774, 0xD130, 0xB97C] @ js '' '' @ [0xAC00, 0xC838, 0xC624, 0xC9C0] @ js '' '' @ [0xBABB, 0xD588, 0xC2B5, 0xB2C8, 0xB2E4] @ js ''.''"

text \<open>
  The body of the \<open>try\<close> block, lines 152 to 163, leaves in one of four ways: the
  \<open>return\<close> of line 163, the \<open>break\<close> of line 155 (with the status), the \<open>continue\<close>
  of line 161, or an exception, thrown by \<open>fetchWithTimeout\<close>, by \<open>parseResponse\<close> or by
  the interpreter \<open>responseParser\<close>.
\<close>

datatype 'a try_exit = Returned 'a | BreakHttp nat | ContinueEmpty | Thrown thrown

definition tryBlock ::
  "(jstring \<Rightarrow> fetch_behaviour) \<Rightarrow> proxy \<Rightarrow> (json \<Rightarrow> thrown + 'a) \<Rightarrow> jstring \<Rightarrow> 'a try_exit" where
  "tryBlock fetch p responseParser proxyUrl =
     (case fetchWithTimeout fetch proxyUrl FETCH_TIMEOUT_MS of
        Inl e \<Rightarrow> Thrown e
      | Inr response \<Rightarrow>
          if \<not> ok response then BreakHttp (status response)
          else
            (case parseResponse p response of
               Inl e \<Rightarrow> Thrown e
             | Inr rawContent \<Rightarrow>
                 if \<not> truthy rawContent then ContinueEmpty
                 else
                   (case responseParser rawContent of
                      Inl e \<Rightarrow> Thrown e
                    | Inr v \<Rightarrow> Returned v)))"

text \<open>
  The state of a call: the variable \<open>lastKnownError\<close>, and the requests and delays made
  so far, oldest first.
\<close>

datatype event = Request jstring | Sleep nat

record fstate =
  lastKnownError :: "js_error option"
  trace :: "event list"

text \<open>Lines 166 to 170: what the \<open>catch\<close> clause stores.\<close>

definition caught :: "thrown \<Rightarrow> js_error" where
  "caught e = (case e of ErrorObject err \<Rightarrow> err | NonError v \<Rightarrow> JsError PlainError MSG_UNKNOWN_REQUEST)"

definition httpError :: "nat \<Rightarrow> js_error" where
  "httpError s = JsError PlainError (MSG_HTTP_PREFIX @ decimal s @ js ''.'')"

definition emptyContentError :: js_error where
  "emptyContentError = JsError PlainError MSG_EMPTY_CONTENT"

text \<open>
  The inner loop, lines 150 to 175, from attempt number \<open>attempt\<close> on. \<open>fetches a\<close> is
  what \<open>fetch\<close> does during attempt \<open>a\<close>. The result is the value returned at line 163,
  or \<open>None\<close> when the loop is left without one.
\<close>

function attemptLoop ::
  "(nat \<Rightarrow> jstring \<Rightarrow> fetch_behaviour) \<Rightarrow> proxy \<Rightarrow> (json \<Rightarrow> thrown + 'a) \<Rightarrow> jstring \<Rightarrow> nat \<Rightarrow> fstate
     \<Rightarrow> 'a option \<times> fstate" where
  "attemptLoop fetches p responseParser proxyUrl attempt st =
     (if attempt \<le> MAX_RETRIES_PER_PROXY
      then
        (let st1 = st\<lparr>trace := trace st @ [Request proxyUrl]\<rparr>
         in case tryBlock (fetches attempt) p responseParser proxyUrl of
              Returned v \<Rightarrow> (Some v, st1)
            | BreakHttp s \<Rightarrow> (None, st1\<lparr>lastKnownError := Some (httpError s)\<rparr>)
            | ContinueEmpty \<Rightarrow>
                attemptLoop fetches p responseParser proxyUrl (attempt + 1)
                  (st1\<lparr>lastKnownError := Some emptyContentError\<rparr>)
            | Thrown e \<Rightarrow>
                (let st2 = st1\<lparr>lastKnownError := Some (caught e)\<rparr>;
                     st3 = (if attempt < MAX_RETRIES_PER_PROXY
                            then st2\<lparr>trace := trace st2 @ [Sleep RETRY_DELAY_MS]\<rparr>
                            else st2)
                 in attemptLoop fetches p responseParser proxyUrl (attempt + 1) st3))
      else (None, st))"
  by pat_completeness auto
termination
  by (relation "measure (\<lambda>(fetches, p, responseParser, proxyUrl, attempt, st).
        Suc MAX_RETRIES_PER_PROXY - attempt)") auto

text \<open>
  The outer loop, lines 147 to 176, over the strategies from position \<open>idx\<close> on.
  \<open>world i a\<close> is what \<open>fetch\<close> does during attempt \<open>a\<close> of the strategy at position
  \<open>i\<close> (positions count from 0, attempts from 1).
\<close>

type_synonym world = "nat \<Rightarrow> nat \<Rightarrow> jstring \<Rightarrow> fetch_behaviour"

fun proxyLoop ::
  "world \<Rightarrow> (json \<Rightarrow> thrown + 'a) \<Rightarrow> jstring \<Rightarrow> nat \<Rightarrow> proxy list \<Rightarrow> fstate \<Rightarrow> 'a option \<times> fstate" where
  "proxyLoop w responseParser targetUrl idx [] st = (None, st)"
| "proxyLoop w responseParser targetUrl idx (p # ps) st =
     (case attemptLoop (w idx) p responseParser (buildUrl p targetUrl) 1 st of
        (Some v, st') \<Rightarrow> (Some v, st')
      | (None, st') \<Rightarrow> proxyLoop w responseParser targetUrl (idx + 1) ps st')"

text \<open>Lines 178 to 188: the error thrown when the loops are left without a value.\<close>

definition finalError :: "js_error option \<Rightarrow> thrown" where
  "finalError lastError =
     (case lastError of
        Some e \<Rightarrow>
          if jsIncludes (message e) (js ''Timeout'') then new_Error MSG_TIMEOUT
          else if err_class e = TypeError \<and> jsIncludes (message e) (js ''fetch'')
          then new_Error MSG_NETWORK
          else new_Error (MSG_ALL_FAILED_PREFIX
                 @ (if message e \<noteq> [] then message e else MSG_UNKNOWN)
                 @ MSG_ALL_FAILED_SUFFIX)
      | None \<Rightarrow> new_Error MSG_NO_DATA)"

definition initialState :: fstate where
  "initialState = \<lparr>lastKnownError = None, trace = []\<rparr>"

text \<open>
  \<open>fetchWithProxies\<close>, lines 145 to 189, with the strategy list as a parameter (the
  source iterates over the constant \<open>PROXIES\<close>). The result is the value returned or the
  error thrown, together with the requests and delays that were made.
\<close>

definition fetchWithProxies ::
  "proxy list \<Rightarrow> world \<Rightarrow> jstring \<Rightarrow> (json \<Rightarrow> thrown + 'a) \<Rightarrow> (thrown + 'a) \<times> event list" where
  "fetchWithProxies proxies w targetUrl responseParser =
     (case proxyLoop w responseParser targetUrl 0 proxies initialState of
        (Some v, st) \<Rightarrow> (Inr v, trace st)
      | (None, st) \<Rightarrow> (Inl (finalError (lastKnownError st)), trace st))"

text \<open>The number of requests in a trace.\<close>

fun isRequest :: "event \<Rightarrow> bool" where
  "isRequest (Request url) = True"
| "isRequest (Sleep ms) = False"

definition requestCount :: "event list \<Rightarrow> nat" where
  "requestCount evs = length (filter isRequest evs)"

fun isReturned :: "'a try_exit \<Rightarrow> bool" where
  "isReturned (Returned v) = True"
| "isReturned x = False"

text \<open>The requests and the delay of a strategy whose first attempt throws.\<close>

definition retryTrace :: "jstring \<Rightarrow> event list" where
  "retryTrace url = [Request url, Sleep RETRY_DELAY_MS, Request url]"

section \<open>Autocomplete keywords\<close>

datatype SearchSource = google | naver

text \<open>
  \<open>KeywordData\<close>. The declared type of \<open>keyword\<close> is \<open>string\<close>; on the Google path the
  entries are whatever the suggest service put in its array, so the model keeps a value.
\<close>

record KeywordData =
  id' :: nat
  keyword :: json

definition MSG_EMPTY_KEYWORD :: jstring where
  "MSG_EMPTY_KEYWORD = [0xD0A4, 0xC6CC, 0xB4DC, 0xAC00] @ js '' '' @ [0xBE44, 0xC5B4, 0xC788, 0xC2B5, 0xB2C8, 0xB2E4] @ js ''.''"

definition MSG_NAVER_SHAPE :: jstring where
  "MSG_NAVER_SHAPE = js ''Naver API'' @ [0xB85C, 0xBD80, 0xD130] @ js '' '' @ [0xC608, 0xC0C1, 0xCE58] @ js '' '' @ [0xBABB, 0xD55C] @ js '' '' @ [0xD615, 0xC2DD, 0xC758] @ js '' '' @ [0xC751, 0xB2F5, 0xC744] @ js '' '' @ [0xBC1B, 0xC558, 0xC2B5, 0xB2C8, 0xB2E4] @ js '': '' @ [0x0027] @ js ''items'' @ [0x0027] @ js '' '' @ [0xBC30, 0xC5F4, 0xC774] @ js '' '' @ [0xC5C6, 0xC2B5, 0xB2C8, 0xB2E4] @ js ''.''"

definition MSG_GOOGLE_SHAPE :: jstring where
  "MSG_GOOGLE_SHAPE = js ''Google Suggest API'' @ [0xB85C, 0xBD80, 0xD130] @ js '' '' @ [0xC608, 0xC0C1, 0xCE58] @ js '' '' @ [0xBABB, 0xD55C] @ js '' '' @ [0xD615, 0xC2DD, 0xC758] @ js '' '' @ [0xC751, 0xB2F5, 0xC744] @ js '' '' @ [0xBC1B, 0xC558, 0xC2B5, 0xB2C8, 0xB2E4] @ js ''.''"

definition MSG_NAVER_ALL_REJECTED_SUFFIX :: jstring where
  "MSG_NAVER_ALL_REJECTED_SUFFIX = [0x0027, 0xC5D0] @ js '' '' @ [0xB300, 0xD55C] @ js '' Naver '' @ [0xC790, 0xB3D9, 0xC644, 0xC131, 0xAC80, 0xC0C9, 0xC5B4] @ js '' '' @ [0xC870, 0xD68C, 0xC5D0] @ js '' '' @ [0xC2E4, 0xD328, 0xD588, 0xC2B5, 0xB2C8, 0xB2E4] @ js ''. '' @ [0xBAA8, 0xB4E0] @ js '' '' @ [0xC694, 0xCCAD, 0xC774] @ js '' '' @ [0xAC70, 0xBD80, 0xB418, 0xC5C8, 0xC2B5, 0xB2C8, 0xB2E4] @ js ''.''"

text \<open>
  Lines 300 to 316, the parser of the Naver response. \<open>firstString item\<close> is the body of
  the innermost loop: \<open>item[0]\<close> is pushed when \<open>item\<close> is an array whose first element
  is a string.
\<close>

fun firstString :: "json \<Rightarrow> jstring list" where
  "firstString (JArr (JStr s # rest)) = [s]"
| "firstString v = []"

fun groupKeywords :: "json \<Rightarrow> jstring list" where
  "groupKeywords (JArr items) = concat (map firstString items)"
| "groupKeywords v = []"

definition naverParser :: "json \<Rightarrow> thrown + jstring list" where
  "naverParser data =
     (if \<not> truthy data then Inl (new_Error MSG_NAVER_SHAPE)
      else
        (case getProp data (js ''items'') of
           Inl e \<Rightarrow> Inl e
         | Inr (Some (JArr groups)) \<Rightarrow> Inr (concat (map groupKeywords groups))
         | Inr (Some JNull) \<Rightarrow> Inr []
         | Inr other \<Rightarrow> Inl (new_Error MSG_NAVER_SHAPE)))"

text \<open>Lines 322 to 327, the parser of the Google response: \<open>data[1]\<close> when it is an array.\<close>

fun googleParser :: "json \<Rightarrow> thrown + json list" where
  "googleParser (JArr (first # JArr suggestions # rest)) = Inr suggestions"
| "googleParser data = Inl (new_Error MSG_GOOGLE_SHAPE)"

definition naverUrl :: "(jstring \<Rightarrow> jstring) \<Rightarrow> jstring \<Rightarrow> jstring" where
  "naverUrl encodeURIComponent term' =
     js ''https://ac.search.naver.com/nx/ac?q='' @ encodeURIComponent term'
     @ js ''&con=1&frm=nx&ans=2&r_format=json&r_enc=UTF-8&r_unicode=0&t_koreng=1&run=2&rev=4&q_enc=UTF-8&st=100''"

definition googleUrl :: "(jstring \<Rightarrow> jstring) \<Rightarrow> jstring \<Rightarrow> jstring" where
  "googleUrl encodeURIComponent term' =
     js ''https://suggestqueries.google.com/complete/search?client=chrome&hl=ko&q=''
     @ encodeURIComponent term'"

text \<open>
  \<open>fetchSingleTermKeywords\<close>, lines 295 to 334, at each of the two values of \<open>source\<close>.
  \<open>JSON.parse\<close> is the interpreter handed to \<open>fetchWithProxies\<close>; \<open>w\<close> is what \<open>fetch\<close>
  does during this call.
\<close>

definition fetchSingleTermKeywords_naver ::
  "(jstring \<Rightarrow> jstring) \<Rightarrow> (json \<Rightarrow> thrown + json) \<Rightarrow> world \<Rightarrow> jstring \<Rightarrow> thrown + jstring list" where
  "fetchSingleTermKeywords_naver encodeURIComponent JSON_parse w term' =
     (case fst (fetchWithProxies (PROXIES encodeURIComponent) w
                  (naverUrl encodeURIComponent term') JSON_parse) of
        Inl e \<Rightarrow> Inl e
      | Inr data \<Rightarrow> naverParser data)"

definition fetchSingleTermKeywords_google ::
  "(jstring \<Rightarrow> jstring) \<Rightarrow> (json \<Rightarrow> thrown + json) \<Rightarrow> world \<Rightarrow> jstring \<Rightarrow> thrown + json list" where
  "fetchSingleTermKeywords_google encodeURIComponent JSON_parse w term' =
     (case fst (fetchWithProxies (PROXIES encodeURIComponent) w
                  (googleUrl encodeURIComponent term') JSON_parse) of
        Inl e \<Rightarrow> Inl e
      | Inr data \<Rightarrow> googleParser data)"

text \<open>Line 342: the empty postfix and the fourteen Hangul consonants.\<close>

definition POSTFIXES :: "jstring list" where
  "POSTFIXES = [[], [0x3131], [0x3134], [0x3137], [0x3139], [0x3141], [0x3142], [0x3145], [0x3147], [0x3148], [0x314A], [0x314B], [0x314C], [0x314D], [0x314E]]"

text \<open>Line 362, \<^verbatim>\<open>/<[^>]*>/\<close>: a \<open><\<close>, then everything up to the next \<open>>\<close>.\<close>

definition matchTag :: matcher where
  "matchTag s =
     (case s of
        [] \<Rightarrow> None
      | c # r \<Rightarrow>
          if c = LESS_THAN
          then (let body = takeWhile (\<lambda>x. x \<noteq> GREATER_THAN) r
                in if length body < length r then Some (length body + 2) else None)
          else None)"

text \<open>
  A \<open>Set\<close> of strings, kept as the list of its elements in insertion order, which is the
  order \<open>Array.from\<close> reads them in.
\<close>

definition setAdd :: "jstring list \<Rightarrow> jstring \<Rightarrow> jstring list" where
  "setAdd elems x = (if x \<in> set elems then elems else elems @ [x])"

text \<open>Lines 361 to 363: every suggestion of every successful result, stripped of tags.\<close>

definition addSuggestions :: "jstring list \<Rightarrow> jstring list \<Rightarrow> jstring list" where
  "addSuggestions allSuggestions suggestions =
     fold (\<lambda>kw acc. setAdd acc (replaceAll matchTag kw)) suggestions allSuggestions"

definition collectSuggestions :: "jstring list list \<Rightarrow> jstring list" where
  "collectSuggestions successfulResults =
     fold (\<lambda>suggestions acc. addSuggestions acc suggestions) successfulResults []"

text \<open>Lines 366 and 372: \<^verbatim>\<open>map((kw, index) => ({ id: index + 1, keyword: kw }))\<close>.\<close>

definition numbered :: "json list \<Rightarrow> KeywordData list" where
  "numbered kws = map (\<lambda>(index, kw). \<lparr>id' = index + 1, keyword = kw\<rparr>) (enumerate 0 kws)"

text \<open>
  Lines 349 to 354: the values of the settlements that are fulfilled, in the order of
  the calls (\<open>Promise.allSettled\<close> keeps it).
\<close>

fun fulfilled :: "(thrown + 'a) list \<Rightarrow> 'a list" where
  "fulfilled [] = []"
| "fulfilled (Inr v # rest) = v # fulfilled rest"
| "fulfilled (Inl e # rest) = fulfilled rest"

text \<open>Lines 349 to 366: from the settlements of the sub-fetches to the result.\<close>

definition naverFanIn :: "jstring \<Rightarrow> (thrown + jstring list) list \<Rightarrow> thrown + KeywordData list" where
  "naverFanIn keyword' settlements =
     (let successfulResults = fulfilled settlements
      in if length successfulResults = 0
         then Inl (new_Error (js [CHR 0x27] @ keyword' @ MSG_NAVER_ALL_REJECTED_SUFFIX))
         else
           (let allSuggestions = collectSuggestions successfulResults;
                finalSuggestions = take 20 allSuggestions
            in Inr (numbered (map JStr finalSuggestions))))"

text \<open>
  \<open>fetchRelatedKeywords\<close>, lines 336 to 373. \<open>ws i\<close> is what \<open>fetch\<close> does during the
  sub-fetch for the postfix at position \<open>i\<close>; the Google path makes one fetch, \<open>ws 0\<close>.
\<close>

definition searchTerms :: "jstring \<Rightarrow> jstring list" where
  "searchTerms keyword' = map (\<lambda>p. trim (keyword' @ js '' '' @ p)) POSTFIXES"

text \<open>Lines 345 to 347: the settlements of the sub-fetches, one for each search term.\<close>

definition naverSettlements ::
  "(jstring \<Rightarrow> jstring) \<Rightarrow> (json \<Rightarrow> thrown + json) \<Rightarrow> (nat \<Rightarrow> world) \<Rightarrow> jstring
     \<Rightarrow> (thrown + jstring list) list" where
  "naverSettlements encodeURIComponent JSON_parse ws keyword' =
     map (\<lambda>(i, term'). fetchSingleTermKeywords_naver encodeURIComponent JSON_parse (ws i) term')
       (enumerate 0 (searchTerms keyword'))"

definition fetchRelatedKeywords ::
  "(jstring \<Rightarrow> jstring) \<Rightarrow> (json \<Rightarrow> thrown + json) \<Rightarrow> (nat \<Rightarrow> world) \<Rightarrow> jstring \<Rightarrow> SearchSource
     \<Rightarrow> thrown + KeywordData list" where
  "fetchRelatedKeywords encodeURIComponent JSON_parse ws keyword' source =
     (if trim keyword' = [] then Inl (new_Error MSG_EMPTY_KEYWORD)
      else if source = naver
      then naverFanIn keyword' (naverSettlements encodeURIComponent JSON_parse ws keyword')
      else
        (case fetchSingleTermKeywords_google encodeURIComponent JSON_parse (ws 0) keyword' of
           Inl e \<Rightarrow> Inl e
         | Inr suggestions \<Rightarrow> Inr (numbered (take 20 suggestions))))"

text \<open>\<open>tagFree xs\<close>: the expression of line 362 matches in none of the strings.\<close>

definition tagFree :: "jstring list \<Rightarrow> bool" where
  "tagFree xs = list_all (\<lambda>s. \<not> regexTest matchTag s) xs"

section \<open>Related searches from the generative model\<close>

record PaaItem =
  question :: jstring
  answer :: jstring
  content_gap_analysis :: jstring

record GoogleSerpData =
  related_searches :: "jstring list"
  people_also_ask :: "PaaItem list"

definition MSG_UNEXPECTED_SHAPE :: jstring where
  "MSG_UNEXPECTED_SHAPE = js ''API '' @ [0xC751, 0xB2F5, 0xC774] @ js '' '' @ [0xC608, 0xC0C1, 0xB41C] @ js '' '' @ [0xD615, 0xC2DD, 0xC774] @ js '' '' @ [0xC544, 0xB2D9, 0xB2C8, 0xB2E4] @ js ''.''"

definition MSG_AI_FAILED_PREFIX :: jstring where
  "MSG_AI_FAILED_PREFIX = js ''AI '' @ [0xBAA8, 0xB378, 0xB85C, 0xBD80, 0xD130] @ js '' '' @ [0xAC80, 0xC0C9] @ js '' '' @ [0xACB0, 0xACFC, 0xB97C] @ js '' '' @ [0xAC00, 0xC838, 0xC624, 0xB294] @ js '' '' @ [0xB370] @ js '' '' @ [0xC2E4, 0xD328, 0xD588, 0xC2B5, 0xB2C8, 0xB2E4] @ js ''. '' @ [0xC624, 0xB958] @ js '': ''"

definition MSG_AI_FAILED :: jstring where
  "MSG_AI_FAILED = js ''AI '' @ [0xBAA8, 0xB378, 0xB85C, 0xBD80, 0xD130] @ js '' '' @ [0xAC80, 0xC0C9] @ js '' '' @ [0xACB0, 0xACFC, 0xB97C] @ js '' '' @ [0xAC00, 0xC838, 0xC624, 0xB294] @ js '' '' @ [0xB370] @ js '' '' @ [0xC2E4, 0xD328, 0xD588, 0xC2B5, 0xB2C8, 0xB2E4] @ js ''.''"

definition MSG_UNDEFINED_PROPERTY :: jstring where
  "MSG_UNDEFINED_PROPERTY = js ''Cannot read properties of undefined''"

definition MSG_NOT_A_FUNCTION :: jstring where
  "MSG_NOT_A_FUNCTION = js ''replace is not a function''"

text \<open>
  Line 265, \<^verbatim>\<open>/\[\d+(, ?\d+)*\]/\<close>. \<open>citationTail s\<close> matches \<^verbatim>\<open>(, ?\d+)*\]\<close> at the start
  of \<open>s\<close> and gives the length of the match. Every choice of the expression is forced:
  \<^verbatim>\<open>\d+\<close> can stop only where no digit follows, the optional space can be skipped only
  if a digit stands in its place, and the group can stop only before the bracket.
\<close>

definition skipSpace :: "jstring \<Rightarrow> jstring" where
  "skipSpace r = (case r of [] \<Rightarrow> [] | c # r' \<Rightarrow> if c = SPACE then r' else r)"

function citationTail :: "jstring \<Rightarrow> nat option" where
  "citationTail s =
     (case s of
        [] \<Rightarrow> None
      | c # r \<Rightarrow>
          if c = COMMA
          then (let r1 = skipSpace r;
                    d = length (takeWhile isDigit r1)
                in if d = 0 then None
                   else map_option (\<lambda>n. 1 + (length r - length r1) + d + n)
                          (citationTail (drop d r1)))
          else if c = RBRACKET then Some 1
          else None)"
  by pat_completeness auto
termination
  by (relation "measure length") (auto simp: skipSpace_def split: list.splits if_splits)

declare citationTail.simps [simp del]

definition matchCitation :: matcher where
  "matchCitation s =
     (case s of
        [] \<Rightarrow> None
      | c # r \<Rightarrow>
          if c = LBRACKET
          then (let d = length (takeWhile isDigit r)
                in if d = 0 then None
                   else map_option (\<lambda>n. 1 + d + n) (citationTail (drop d r)))
          else None)"

text \<open>
  \<^verbatim>\<open>(x || '').replace(citationRegex, '').trim()\<close>, lines 268 to 270 and 274, for a value
  \<open>x\<close> that may be \<open>undefined\<close>: a falsy \<open>x\<close> gives the empty string, a string is
  cleaned, and any other value has no method \<open>replace\<close>.
\<close>

definition cleanField :: "json option \<Rightarrow> thrown + jstring" where
  "cleanField x =
     (if \<not> truthyOpt x then Inr (trim (replaceAll matchCitation []))
      else
        (case x of
           Some (JStr s) \<Rightarrow> Inr (trim (replaceAll matchCitation s))
         | other \<Rightarrow> Inl (ErrorObject (JsError TypeError MSG_NOT_A_FUNCTION))))"

text \<open>Lines 267 to 271: the callback of \<open>map\<close> over \<open>people_also_ask\<close>.\<close>

definition cleanPaa :: "json \<Rightarrow> thrown + PaaItem" where
  "cleanPaa paa =
     (case getProp paa (js ''question'') of
        Inl e \<Rightarrow> Inl e
      | Inr q \<Rightarrow>
          (case cleanField q of
             Inl e \<Rightarrow> Inl e
           | Inr q' \<Rightarrow>
               (case getProp paa (js ''answer'') of
                  Inl e \<Rightarrow> Inl e
                | Inr a \<Rightarrow>
                    (case cleanField a of
                       Inl e \<Rightarrow> Inl e
                     | Inr a' \<Rightarrow>
                         (case getProp paa (js ''content_gap_analysis'') of
                            Inl e \<Rightarrow> Inl e
                          | Inr g \<Rightarrow>
                              (case cleanField g of
                                 Inl e \<Rightarrow> Inl e
                               | Inr g' \<Rightarrow>
                                   Inr \<lparr>question = q', answer = a',
                                        content_gap_analysis = g'\<rparr>))))))"

text \<open>\<open>Array.prototype.map\<close> with a callback that may throw: the first throw ends it.\<close>

fun mapThrowing :: "('a \<Rightarrow> thrown + 'b) \<Rightarrow> 'a list \<Rightarrow> thrown + 'b list" where
  "mapThrowing f [] = Inr []"
| "mapThrowing f (x # xs) =
     (case f x of
        Inl e \<Rightarrow> Inl e
      | Inr y \<Rightarrow> (case mapThrowing f xs of Inl e \<Rightarrow> Inl e | Inr ys \<Rightarrow> Inr (y # ys)))"

text \<open>Lines 261 to 283: the body of the \<open>try\<close> block after the model has answered.\<close>

definition cleanSerp :: "json \<Rightarrow> thrown + GoogleSerpData" where
  "cleanSerp result =
     (if \<not> truthy result then Inl (new_Error MSG_UNEXPECTED_SHAPE)
      else
        (case getProp result (js ''related_searches'') of
           Inl e \<Rightarrow> Inl e
         | Inr (Some (JArr searches)) \<Rightarrow>
             (case getProp result (js ''people_also_ask'') of
                Inl e \<Rightarrow> Inl e
              | Inr (Some (JArr paas)) \<Rightarrow>
                  (case mapThrowing cleanPaa paas of
                     Inl e \<Rightarrow> Inl e
                   | Inr cleaned \<Rightarrow>
                       (let cleanedPaas = take 5 cleaned
                        in case mapThrowing (\<lambda>search. cleanField (Some search)) searches of
                             Inl e \<Rightarrow> Inl e
                           | Inr cleanedRelatedSearches \<Rightarrow>
                               Inr \<lparr>related_searches = cleanedRelatedSearches,
                                    people_also_ask = cleanedPaas\<rparr>))
              | Inr other \<Rightarrow> Inl (new_Error MSG_UNEXPECTED_SHAPE))
         | Inr other \<Rightarrow> Inl (new_Error MSG_UNEXPECTED_SHAPE)))"

text \<open>Lines 285 to 291: the \<open>catch\<close> clause wraps whatever the \<open>try\<close> block threw.\<close>

definition rethrow :: "thrown \<Rightarrow> thrown" where
  "rethrow e =
     (case e of
        ErrorObject err \<Rightarrow> new_Error (MSG_AI_FAILED_PREFIX @ message err)
      | NonError v \<Rightarrow> new_Error MSG_AI_FAILED)"

text \<open>
  \<open>generateRelatedKeywords\<close>, lines 191 to 292. \<open>generated\<close> is what the call of the
  generative model settles to: a rejection, or a response whose property \<open>text\<close> is a
  string or \<open>undefined\<close>.
\<close>

definition generateRelatedKeywords ::
  "(json \<Rightarrow> thrown + json) \<Rightarrow> (thrown + jstring option) \<Rightarrow> jstring \<Rightarrow> thrown + GoogleSerpData" where
  "generateRelatedKeywords JSON_parse generated keyword' =
     (if trim keyword' = [] then Inl (new_Error MSG_EMPTY_KEYWORD)
      else
        (case (case generated of
                 Inl e \<Rightarrow> Inl e
               | Inr None \<Rightarrow> Inl (ErrorObject (JsError TypeError MSG_UNDEFINED_PROPERTY))
               | Inr (Some text') \<Rightarrow>
                   (case extractJsonFromText JSON_parse text' of
                      Inl e \<Rightarrow> Inl e
                    | Inr result \<Rightarrow> cleanSerp result)) of
           Inl e \<Rightarrow> Inl (rethrow e)
         | Inr serp \<Rightarrow> Inr serp))"

text \<open>\<open>everyBracketCited s\<close>: each \<open>[\<close> of \<open>s\<close> is the start of a citation marker.\<close>

fun everyBracketCited :: "jstring \<Rightarrow> bool" where
  "everyBracketCited [] = True"
| "everyBracketCited (c # cs) =
     ((c \<noteq> LBRACKET \<or> matchCitation (c # cs) \<noteq> None) \<and> everyBracketCited cs)"

text \<open>
  For the statements about the cleaned result: the string that \<^verbatim>\<open>(x || '')\<close> hands to
  \<open>replace\<close> when \<open>x\<close> is a string or falsy; a string with no white space at either end;
  a string in which the citation expression matches; a string that \<open>cleanField\<close> can
  return; and all the strings of a result.
\<close>

definition sourceText :: "json option \<Rightarrow> jstring" where
  "sourceText x = (case x of Some (JStr s) \<Rightarrow> s | other \<Rightarrow> [])"

definition trimmed :: "jstring \<Rightarrow> bool" where
  "trimmed s \<longleftrightarrow> s = [] \<or> (\<not> isWhiteSpace (hd s) \<and> \<not> isWhiteSpace (last s))"

definition hasCitation :: "jstring \<Rightarrow> bool" where
  "hasCitation s = regexTest matchCitation s"

definition cleaned :: "jstring \<Rightarrow> bool" where
  "cleaned s \<longleftrightarrow> (\<exists>x. cleanField x = Inr s)"

definition serpStrings :: "GoogleSerpData \<Rightarrow> jstring list" where
  "serpStrings serp =
     related_searches serp
     @ concat (map (\<lambda>paa. [question paa, answer paa, content_gap_analysis paa]) (people_also_ask serp))"

text \<open>
  \<^verbatim>\<open>(v.name || '')\<close> as the text handed to \<open>replace\<close>, for a string or falsy property:
  the property when it is a string, the empty string otherwise.
\<close>

definition propText :: "json \<Rightarrow> jstring \<Rightarrow> jstring" where
  "propText v name' = sourceText (case getProp v name' of Inl e \<Rightarrow> None | Inr x \<Rightarrow> x)"

section \<open>Example inputs\<close>

text \<open>
  An encoder, a target and three behaviours of the network for the examples below: every
  connection is refused at once, no request settles before the timer fires, and every relay
  answers 200 with an empty payload.
\<close>

definition exampleEncode :: "jstring \<Rightarrow> jstring" where
  "exampleEncode url = url"

definition exampleUrl :: jstring where
  "exampleUrl = js ''https://example.com/q''"

definition refusedWorld :: world where
  "refusedWorld i a url = (0, Inl (ErrorObject (JsError TypeError (js ''Failed to fetch''))))"

definition lateResponse :: response where
  "lateResponse = \<lparr>status = 200, body_text = Inr (js ''late''), body_json = Inr (JObj [(js ''contents'', JStr (js ''late''))])\<rparr>"

definition stalledWorld :: world where
  "stalledWorld i a url = (60000, Inr lateResponse)"

definition emptyResponse :: response where
  "emptyResponse = \<lparr>status = 200, body_text = Inr [], body_json = Inr (JObj [(js ''contents'', JStr [])])\<rparr>"

definition emptyWorld :: world where
  "emptyWorld i a url = (0, Inr emptyResponse)"

text \<open>Every relay answers 200 with a page that is not JSON, and the interpreter rejects it.\<close>

definition pageResponse :: response where
  "pageResponse = \<lparr>status = 200, body_text = Inr (js ''<html>''), body_json = Inr (JObj [(js ''contents'', JStr (js ''<html>''))])\<rparr>"

definition pageWorld :: world where
  "pageWorld i a url = (0, Inr pageResponse)"

definition rejectingParser :: "json \<Rightarrow> thrown + json" where
  "rejectingParser v = Inl (ErrorObject (JsError SyntaxError (js ''Unexpected token <'')))"

text \<open>Every relay answers 503.\<close>

definition unavailableResponse :: response where
  "unavailableResponse = \<lparr>status = 503, body_text = Inr [], body_json = Inl (ErrorObject (JsError SyntaxError (js ''Unexpected end of JSON input'')))\<rparr>"

definition unavailableWorld :: world where
  "unavailableWorld i a url = (0, Inr unavailableResponse)"

text \<open>The first relay refuses the connection; the others answer 200 with the page.\<close>

definition fallbackWorld :: world where
  "fallbackWorld i a url =
     (if i = 0 then (0, Inl (ErrorObject (JsError TypeError (js ''Failed to fetch''))))
      else (0, Inr pageResponse))"

text \<open>The interpreter of line 382, \<^verbatim>\<open>(text) => text\<close>.\<close>

definition identityParser :: "json \<Rightarrow> thrown + json" where
  "identityParser v = Inr v"

subsection \<open>A reference parser\<close>

text \<open>
  A parser to put in the place of \<open>JSON.parse\<close> in the examples. It reads the JSON
  grammar with integer numbers and the two-character escapes, and rejects every other text
  (fractions, exponents and \<^verbatim>\<open>\u\<close> escapes included) with a SyntaxError. The keys of an
  object are kept in the order of the text. The first argument of \<open>parseValue\<close> is fuel,
  one unit for each call.
\<close>

definition isJsonSpace :: "nat \<Rightarrow> bool" where
  "isJsonSpace c \<longleftrightarrow> c = 0x20 \<or> c = 0x09 \<or> c = 0x0A \<or> c = 0x0D"

definition unescape :: "nat \<Rightarrow> nat option" where
  "unescape c =
     (if c = DQUOTE \<or> c = BACKSLASH \<or> c = 0x2F then Some c
      else if c = 0x62 then Some 0x08
      else if c = 0x66 then Some 0x0C
      else if c = 0x6E then Some 0x0A
      else if c = 0x72 then Some 0x0D
      else if c = 0x74 then Some 0x09
      else None)"

fun parseChars :: "jstring \<Rightarrow> (jstring \<times> jstring) option" where
  "parseChars [] = None"
| "parseChars [c] = (if c = DQUOTE then Some ([], []) else None)"
| "parseChars (c # d # r) =
     (if c = DQUOTE then Some ([], d # r)
      else if c = BACKSLASH
      then (case unescape d of
              None \<Rightarrow> None
            | Some u \<Rightarrow> map_option (\<lambda>(t, rest). (u # t, rest)) (parseChars r))
      else if c < 0x20 then None
      else map_option (\<lambda>(t, rest). (c # t, rest)) (parseChars (d # r)))"

definition parseInteger :: "jstring \<Rightarrow> (int \<times> jstring) option" where
  "parseInteger s =
     (let digits = takeWhile isDigit s;
          rest = drop (length digits) s
      in if digits = [] \<or> (1 < length digits \<and> hd digits = 0x30) then None
         else if rest \<noteq> [] \<and> (hd rest = 0x2E \<or> hd rest = 0x65 \<or> hd rest = 0x45) then None
         else Some (int (foldl (\<lambda>n d. 10 * n + (d - 0x30)) 0 digits), rest))"

fun parseValue :: "jstring \<Rightarrow> jstring \<Rightarrow> (json \<times> jstring) option"
  and parseElements :: "jstring \<Rightarrow> jstring \<Rightarrow> (json list \<times> jstring) option"
  and parseMembers :: "jstring \<Rightarrow> jstring \<Rightarrow> ((jstring \<times> json) list \<times> jstring) option" where
  "parseValue [] s = None"
| "parseValue (f # fuel) s =
     (case dropWhile isJsonSpace s of
        [] \<Rightarrow> None
      | c # r \<Rightarrow>
          if c = LBRACE
          then (case dropWhile isJsonSpace r of
                  [] \<Rightarrow> None
                | c2 # r2 \<Rightarrow>
                    if c2 = RBRACE then Some (JObj [], r2)
                    else map_option (\<lambda>(ms, rest). (JObj ms, rest)) (parseMembers fuel (c2 # r2)))
          else if c = LBRACKET
          then (case dropWhile isJsonSpace r of
                  [] \<Rightarrow> None
                | c2 # r2 \<Rightarrow>
                    if c2 = RBRACKET then Some (JArr [], r2)
                    else map_option (\<lambda>(vs, rest). (JArr vs, rest)) (parseElements fuel (c2 # r2)))
          else if c = DQUOTE then map_option (\<lambda>(t, rest). (JStr t, rest)) (parseChars r)
          else if c = 0x2D then map_option (\<lambda>(n, rest). (JNum (- n), rest)) (parseInteger r)
          else if isDigit c then map_option (\<lambda>(n, rest). (JNum n, rest)) (parseInteger (c # r))
          else if startsWith (c # r) (js ''true'') then Some (JBool True, drop 4 (c # r))
          else if startsWith (c # r) (js ''false'') then Some (JBool False, drop 5 (c # r))
          else if startsWith (c # r) (js ''null'') then Some (JNull, drop 4 (c # r))
          else None)"
| "parseElements [] s = None"
| "parseElements (f # fuel) s =
     (case parseValue fuel s of
        None \<Rightarrow> None
      | Some (v, r) \<Rightarrow>
          (case dropWhile isJsonSpace r of
             [] \<Rightarrow> None
           | c # r2 \<Rightarrow>
               if c = COMMA then map_option (\<lambda>(vs, rest). (v # vs, rest)) (parseElements fuel r2)
               else if c = RBRACKET then Some ([v], r2)
               else None))"
| "parseMembers [] s = None"
| "parseMembers (f # fuel) s =
     (case dropWhile isJsonSpace s of
        [] \<Rightarrow> None
      | q # r \<Rightarrow>
          if q \<noteq> DQUOTE then None
          else
            (case parseChars r of
               None \<Rightarrow> None
             | Some (k, r1) \<Rightarrow>
                 (case dropWhile isJsonSpace r1 of
                    [] \<Rightarrow> None
                  | colon # r2 \<Rightarrow>
                      if colon \<noteq> 0x3A then None
                      else
                        (case parseValue fuel r2 of
                           None \<Rightarrow> None
                         | Some (v, r3) \<Rightarrow>
                             (case dropWhile isJsonSpace r3 of
                                [] \<Rightarrow> None
                              | c # r4 \<Rightarrow>
                                  if c = COMMA
                                  then map_option (\<lambda>(ms, rest). ((k, v) # ms, rest))
                                         (parseMembers fuel r4)
                                  else if c = RBRACE then Some ([(k, v)], r4)
                                  else None)))))"

definition MSG_SYNTAX :: jstring where
  "MSG_SYNTAX = js ''Unexpected token in JSON''"

definition referenceParse :: "json \<Rightarrow> thrown + json" where
  "referenceParse x =
     (case x of
        JStr s \<Rightarrow>
          (case parseValue (s @ s) s of
             None \<Rightarrow> Inl (ErrorObject (JsError SyntaxError MSG_SYNTAX))
           | Some (v, rest) \<Rightarrow>
               if dropWhile isJsonSpace rest = [] then Inr v
               else Inl (ErrorObject (JsError SyntaxError MSG_SYNTAX)))
      | other \<Rightarrow> Inl (ErrorObject (JsError SyntaxError MSG_SYNTAX)))"


subsection \<open>Texts for the extractor\<close>

text \<open>The text of claim C3: prose, a fenced block that holds the value, prose.\<close>

definition fencedExample :: jstring where
  \<open>fencedExample = js ''here is the result:\<newline>```json\<newline>{"a": [1,2,{"b":"}"}]}\<newline>```\<newline>thanks''\<close>

subsection \<open>Answers of the autocomplete service\<close>


definition suggestResponse :: response where
  \<open>suggestResponse =
     \<lparr>status = 200,
      body_text = Inr (js ''{"items":[[["<b>ab</b>c"],["abc"],["ab"]]]}''),
      body_json = Inr (JObj [(js ''contents'', JStr (js ''{"items":[[["<b>ab</b>c"],["abc"],["ab"]]]}''))])\<rparr>\<close>

definition suggestWorld :: world where
  "suggestWorld i a url = (0, Inr suggestResponse)"

definition naverWorlds :: "nat \<Rightarrow> world" where
  "naverWorlds i = (if i = 0 then suggestWorld else refusedWorld)"


subsection \<open>Answers of the generative model\<close>

text \<open>
  An answer with a citation marker inside another pair of brackets; a fenced answer with
  plain markers, six questions and missing fields; and the result expected for the latter.
\<close>

definition nestedCitationText :: jstring where
  \<open>nestedCitationText = js ''{"related_searches": ["see [1[2]]"], "people_also_ask": []}''\<close>

definition citedText :: jstring where
  \<open>citedText = js ''```json\<newline>{"related_searches": ["seo tips [1]", " keyword tools [2, 3] "], "people_also_ask": [{"question": "q1 [1]"}, {"question": "q2", "answer": "a2 [2,3]"}, {}, {}, {}, {"question": "q6"}]}\<newline>```''\<close>

definition citedSerp :: GoogleSerpData where
  "citedSerp =
     \<lparr>related_searches = [js ''seo tips'', js ''keyword tools''],
      people_also_ask =
        [\<lparr>question = js ''q1'', answer = [], content_gap_analysis = []\<rparr>,
         \<lparr>question = js ''q2'', answer = js ''a2'', content_gap_analysis = []\<rparr>,
         \<lparr>question = [], answer = [], content_gap_analysis = []\<rparr>,
         \<lparr>question = [], answer = [], content_gap_analysis = []\<rparr>,
         \<lparr>question = [], answer = [], content_gap_analysis = []\<rparr>]\<rparr>"

section \<open>Properties of the retry loops\<close>

text \<open>
  The defining equation of \<open>attemptLoop\<close> calls itself; it is unfolded one attempt at a
  time, by the lemmas below, one for each way the \<open>try\<close> block is left.
\<close>

declare attemptLoop.simps [simp del]


lemma attemptLoop_past:
  "MAX_RETRIES_PER_PROXY < attempt \<Longrightarrow> attemptLoop fetches p rp url attempt st = (None, st)"
  by (subst attemptLoop.simps) simp

lemma attemptLoop_Returned:
  "attempt \<le> MAX_RETRIES_PER_PROXY \<Longrightarrow> tryBlock (fetches attempt) p rp url = Returned v \<Longrightarrow>
   attemptLoop fetches p rp url attempt st =
     (Some v, \<lparr>lastKnownError = lastKnownError st, trace = trace st @ [Request url]\<rparr>)"
  by (subst attemptLoop.simps) (cases st, simp)

lemma attemptLoop_BreakHttp:
  "attempt \<le> MAX_RETRIES_PER_PROXY \<Longrightarrow> tryBlock (fetches attempt) p rp url = BreakHttp s \<Longrightarrow>
   attemptLoop fetches p rp url attempt st =
     (None, \<lparr>lastKnownError = Some (httpError s), trace = trace st @ [Request url]\<rparr>)"
  by (subst attemptLoop.simps) (cases st, simp)

lemma attemptLoop_ContinueEmpty:
  "attempt \<le> MAX_RETRIES_PER_PROXY \<Longrightarrow> tryBlock (fetches attempt) p rp url = ContinueEmpty \<Longrightarrow>
   attemptLoop fetches p rp url attempt st =
     attemptLoop fetches p rp url (Suc attempt)
       \<lparr>lastKnownError = Some emptyContentError, trace = trace st @ [Request url]\<rparr>"
  by (subst attemptLoop.simps) (cases st, simp)

lemma attemptLoop_Thrown_retry:
  "attempt < MAX_RETRIES_PER_PROXY \<Longrightarrow> tryBlock (fetches attempt) p rp url = Thrown e \<Longrightarrow>
   attemptLoop fetches p rp url attempt st =
     attemptLoop fetches p rp url (Suc attempt)
       \<lparr>lastKnownError = Some (caught e), trace = trace st @ [Request url, Sleep RETRY_DELAY_MS]\<rparr>"
  by (subst attemptLoop.simps) (cases st, simp)

lemma attemptLoop_Thrown_last:
  "attempt = MAX_RETRIES_PER_PROXY \<Longrightarrow> tryBlock (fetches attempt) p rp url = Thrown e \<Longrightarrow>
   attemptLoop fetches p rp url attempt st =
     (None, \<lparr>lastKnownError = Some (caught e), trace = trace st @ [Request url]\<rparr>)"
  by (subst attemptLoop.simps) (cases st, simp add: attemptLoop_past)

lemma tryBlock_transport:
  "fetchWithTimeout fetch url FETCH_TIMEOUT_MS = Inl e \<Longrightarrow> tryBlock fetch p rp url = Thrown e"
  by (simp add: tryBlock_def)

lemma attemptLoop_both_thrown:
  assumes "tryBlock (fetches 1) p rp url = Thrown e1" and "tryBlock (fetches 2) p rp url = Thrown e2"
  shows "attemptLoop fetches p rp url 1 st =
     (None, \<lparr>lastKnownError = Some (caught e2),
             trace = trace st @ [Request url, Sleep RETRY_DELAY_MS, Request url]\<rparr>)"
proof -
  have one: "(1::nat) < MAX_RETRIES_PER_PROXY" and two: "Suc 1 = MAX_RETRIES_PER_PROXY"
    by (simp_all add: MAX_RETRIES_PER_PROXY_def)
  have e2: "tryBlock (fetches (Suc 1)) p rp url = Thrown e2"
    using assms(2) by (simp add: numeral_2_eq_2)
  have "attemptLoop fetches p rp url 1 st =
      attemptLoop fetches p rp url (Suc 1)
       \<lparr>lastKnownError = Some (caught e1), trace = trace st @ [Request url, Sleep RETRY_DELAY_MS]\<rparr>"
    using one assms(1) by (rule attemptLoop_Thrown_retry)
  also have "\<dots> = (None, \<lparr>lastKnownError = Some (caught e2),
             trace = trace st @ [Request url, Sleep RETRY_DELAY_MS, Request url]\<rparr>)"
    using attemptLoop_Thrown_last [where attempt = "Suc 1" and fetches = fetches, OF two e2]
    by simp
  finally show ?thesis .
qed

lemma attemptLoop_no_return:
  "(\<And>a. 1 \<le> a \<Longrightarrow> a \<le> MAX_RETRIES_PER_PROXY \<Longrightarrow> \<not> isReturned (tryBlock (fetches a) p rp url)) \<Longrightarrow>
   1 \<le> attempt \<Longrightarrow> fst (attemptLoop fetches p rp url attempt st) = None"
proof (induction fetches p rp url attempt st rule: attemptLoop.induct)
  case (1 fetches p rp url attempt st)
  show ?case
  proof (cases "attempt \<le> MAX_RETRIES_PER_PROXY")
    case False
    then show ?thesis by (simp add: attemptLoop_past)
  next
    case True
    have nr: "\<not> isReturned (tryBlock (fetches attempt) p rp url)"
      using "1.prems" True by blast
    show ?thesis
    proof (cases "tryBlock (fetches attempt) p rp url")
      case (Returned v)
      with nr show ?thesis by simp
    next
      case (BreakHttp s)
      then show ?thesis by (simp add: attemptLoop_BreakHttp [OF True])
    next
      case ContinueEmpty
      show ?thesis
        using "1.IH"(1) [OF True refl ContinueEmpty] "1.prems"
        by (subst attemptLoop.simps) (simp add: True ContinueEmpty)
    next
      case (Thrown e)
      show ?thesis
        using "1.IH"(2) [OF True refl Thrown refl refl] "1.prems"
        by (subst attemptLoop.simps) (simp add: True Thrown Let_def)
    qed
  qed
qed

lemma proxyLoop_append:
  "proxyLoop w rp url idx (ps1 @ ps2) st =
     (case proxyLoop w rp url idx ps1 st of
        (Some v, st') \<Rightarrow> (Some v, st')
      | (None, st') \<Rightarrow> proxyLoop w rp url (idx + length ps1) ps2 st')"
  by (induction ps1 arbitrary: idx st) (auto split: prod.splits option.splits)

lemma proxyLoop_all_thrown:
  assumes "\<forall>i<length ps. \<forall>a. 1 \<le> a \<and> a \<le> MAX_RETRIES_PER_PROXY \<longrightarrow>
             (\<exists>e. tryBlock (w (idx + i) a) (ps ! i) rp (buildUrl (ps ! i) url) = Thrown e)"
  shows "\<exists>st'. proxyLoop w rp url idx ps st = (None, st')
           \<and> trace st' = trace st @ concat (map (\<lambda>p. retryTrace (buildUrl p url)) ps)
           \<and> (ps = [] \<longrightarrow> lastKnownError st' = lastKnownError st)
           \<and> (ps \<noteq> [] \<longrightarrow> (\<forall>e. tryBlock (w (idx + length ps - 1) MAX_RETRIES_PER_PROXY) (last ps) rp
                                   (buildUrl (last ps) url) = Thrown e
                               \<longrightarrow> lastKnownError st' = Some (caught e)))"
  using assms
proof (induction ps arbitrary: idx st)
  case Nil
  then show ?case by simp
next
  case (Cons p ps)
  have bounds: "(1::nat) \<le> 1 \<and> 1 \<le> MAX_RETRIES_PER_PROXY" "(1::nat) \<le> 2 \<and> 2 \<le> MAX_RETRIES_PER_PROXY"
    by (simp_all add: MAX_RETRIES_PER_PROXY_def)
  from Cons.prems [rule_format, of 0 1] bounds(1)
  obtain e1 where e1: "tryBlock (w idx 1) p rp (buildUrl p url) = Thrown e1" by auto
  from Cons.prems [rule_format, of 0 2] bounds(2)
  obtain e2 where e2: "tryBlock (w idx 2) p rp (buildUrl p url) = Thrown e2" by auto
  let ?st1 = "\<lparr>lastKnownError = Some (caught e2),
               trace = trace st @ retryTrace (buildUrl p url)\<rparr>"
  have step: "attemptLoop (w idx) p rp (buildUrl p url) 1 st = (None, ?st1)"
    using attemptLoop_both_thrown [OF e1 e2] by (simp add: retryTrace_def)
  have rest: "\<forall>i<length ps. \<forall>a. 1 \<le> a \<and> a \<le> MAX_RETRIES_PER_PROXY \<longrightarrow>
             (\<exists>e. tryBlock (w (Suc idx + i) a) (ps ! i) rp (buildUrl (ps ! i) url) = Thrown e)"
  proof (intro allI impI)
    fix i a assume "i < length ps" "1 \<le> a \<and> a \<le> MAX_RETRIES_PER_PROXY"
    with Cons.prems [rule_format, of "Suc i" a]
    show "\<exists>e. tryBlock (w (Suc idx + i) a) (ps ! i) rp (buildUrl (ps ! i) url) = Thrown e"
      by simp
  qed
  from Cons.IH [OF rest, of ?st1]
  obtain st' where st': "proxyLoop w rp url (Suc idx) ps ?st1 = (None, st')"
    "trace st' = trace ?st1 @ concat (map (\<lambda>p. retryTrace (buildUrl p url)) ps)"
    "ps = [] \<longrightarrow> lastKnownError st' = lastKnownError ?st1"
    "ps \<noteq> [] \<longrightarrow> (\<forall>e. tryBlock (w (Suc idx + length ps - 1) MAX_RETRIES_PER_PROXY) (last ps) rp
                                   (buildUrl (last ps) url) = Thrown e
                               \<longrightarrow> lastKnownError st' = Some (caught e))"
    by blast
  have "proxyLoop w rp url idx (p # ps) st = (None, st')"
    using step st'(1) by simp
  moreover have "trace st' = trace st @ concat (map (\<lambda>p. retryTrace (buildUrl p url)) (p # ps))"
    using st'(2) by simp
  moreover have "\<forall>e. tryBlock (w (idx + length (p # ps) - 1) MAX_RETRIES_PER_PROXY) (last (p # ps)) rp
                                   (buildUrl (last (p # ps)) url) = Thrown e
                               \<longrightarrow> lastKnownError st' = Some (caught e)"
  proof (cases "ps = []")
    case True
    with st'(3) e2 show ?thesis by (simp add: MAX_RETRIES_PER_PROXY_def)
  next
    case False
    with st'(4) show ?thesis by simp
  qed
  ultimately show ?case by blast
qed

lemma requestCount_append: "requestCount (xs @ ys) = requestCount xs + requestCount ys"
  by (simp add: requestCount_def)

lemma requestCount_retryTraces:
  "requestCount (concat (map (\<lambda>p. retryTrace (buildUrl p url)) ps)) = length ps * 2"
  by (induction ps) (simp_all add: requestCount_def retryTrace_def)

text \<open>
  Claim C1. For a strategy list of length \<open>N \<ge> 1\<close>, if every attempt of every strategy
  fails with a transport-level exception (\<open>fetchWithTimeout\<close> rejects), then
  \<open>fetchWithProxies\<close> makes exactly \<open>N\<close> times \<open>MAX_RETRIES_PER_PROXY\<close> requests and
  does not return. The failure recorded last is the rejection \<open>e\<close> of the last attempt of
  the last strategy (replaced by the unknown-request error when \<open>e\<close> is not an \<open>Error\<close>),
  and the message of the error thrown is read off it: the timeout message when its message
  contains \<^verbatim>\<open>Timeout\<close>, the connectivity message when it is a TypeError whose message
  contains \<^verbatim>\<open>fetch\<close>, and otherwise the all-proxies-failed message, which embeds the
  message of the recorded failure.
\<close>

theorem fetchWithProxies_all_attempts_throw:
  assumes "proxies \<noteq> []"
    and "\<forall>i<length proxies. \<forall>a. 1 \<le> a \<and> a \<le> MAX_RETRIES_PER_PROXY \<longrightarrow>
           isl (fetchWithTimeout (w i a) (buildUrl (proxies ! i) targetUrl) FETCH_TIMEOUT_MS)"
    and "fetchWithTimeout (w (length proxies - 1) MAX_RETRIES_PER_PROXY)
           (buildUrl (last proxies) targetUrl) FETCH_TIMEOUT_MS = Inl e"
    and "recorded = (case e of ErrorObject err \<Rightarrow> err
                             | NonError v \<Rightarrow> JsError PlainError MSG_UNKNOWN_REQUEST)"
  shows "requestCount (snd (fetchWithProxies proxies w targetUrl responseParser))
           = length proxies * MAX_RETRIES_PER_PROXY
       \<and> fst (fetchWithProxies proxies w targetUrl responseParser)
           = Inl (ErrorObject (JsError PlainError
               (if jsIncludes (message recorded) (js ''Timeout'') then MSG_TIMEOUT
                else if err_class recorded = TypeError \<and> jsIncludes (message recorded) (js ''fetch'')
                then MSG_NETWORK
                else MSG_ALL_FAILED_PREFIX
                       @ (if message recorded \<noteq> [] then message recorded else MSG_UNKNOWN)
                       @ MSG_ALL_FAILED_SUFFIX)))
       \<and> (\<not> jsIncludes (message recorded) (js ''Timeout'')
            \<and> \<not> (err_class recorded = TypeError \<and> jsIncludes (message recorded) (js ''fetch''))
            \<and> message recorded \<noteq> []
          \<longrightarrow> (\<exists>msg. fst (fetchWithProxies proxies w targetUrl responseParser)
                         = Inl (ErrorObject (JsError PlainError msg))
                     \<and> jsIncludes msg (message recorded)))"
proof -
  have thrown: "\<forall>i<length proxies. \<forall>a. 1 \<le> a \<and> a \<le> MAX_RETRIES_PER_PROXY \<longrightarrow>
      (\<exists>x. tryBlock (w (0 + i) a) (proxies ! i) responseParser (buildUrl (proxies ! i) targetUrl) = Thrown x)"
  proof (intro allI impI)
    fix i a assume "i < length proxies" "1 \<le> a \<and> a \<le> MAX_RETRIES_PER_PROXY"
    with assms(2) have "isl (fetchWithTimeout (w i a) (buildUrl (proxies ! i) targetUrl) FETCH_TIMEOUT_MS)"
      by blast
    then obtain x where "fetchWithTimeout (w i a) (buildUrl (proxies ! i) targetUrl) FETCH_TIMEOUT_MS = Inl x"
      by (auto simp: isl_def)
    then show "\<exists>x. tryBlock (w (0 + i) a) (proxies ! i) responseParser (buildUrl (proxies ! i) targetUrl) = Thrown x"
      by (auto dest: tryBlock_transport)
  qed
  from proxyLoop_all_thrown [OF thrown, of initialState]
  obtain st' where st': "proxyLoop w responseParser targetUrl 0 proxies initialState = (None, st')"
    "trace st' = trace initialState @ concat (map (\<lambda>p. retryTrace (buildUrl p targetUrl)) proxies)"
    "proxies \<noteq> [] \<longrightarrow> (\<forall>e. tryBlock (w (0 + length proxies - 1) MAX_RETRIES_PER_PROXY) (last proxies) responseParser
                                   (buildUrl (last proxies) targetUrl) = Thrown e
                               \<longrightarrow> lastKnownError st' = Some (caught e))"
    by blast
  have rec: "caught e = recorded"
    by (simp add: caught_def assms(4))
  have last: "lastKnownError st' = Some recorded"
  proof -
    have "tryBlock (w (0 + length proxies - 1) MAX_RETRIES_PER_PROXY) (last proxies) responseParser
            (buildUrl (last proxies) targetUrl) = Thrown e"
      using tryBlock_transport [OF assms(3)] by simp
    with st'(3) assms(1) rec show ?thesis by auto
  qed
  let ?msg = "if jsIncludes (message recorded) (js ''Timeout'') then MSG_TIMEOUT
                else if err_class recorded = TypeError \<and> jsIncludes (message recorded) (js ''fetch'')
                then MSG_NETWORK
                else MSG_ALL_FAILED_PREFIX
                       @ (if message recorded \<noteq> [] then message recorded else MSG_UNKNOWN)
                       @ MSG_ALL_FAILED_SUFFIX"
  have run: "fetchWithProxies proxies w targetUrl responseParser
      = (Inl (ErrorObject (JsError PlainError ?msg)), trace st')"
    by (simp add: fetchWithProxies_def st'(1) last finalError_def new_Error_def)
  have count: "requestCount (snd (fetchWithProxies proxies w targetUrl responseParser))
           = length proxies * MAX_RETRIES_PER_PROXY"
    by (simp add: run st'(2) initialState_def requestCount_retryTraces MAX_RETRIES_PER_PROXY_def)
  have embeds: "jsIncludes (p @ m @ s) m" for p m s :: jstring
  proof (induction p)
    case Nil
    have "startsWith (m @ s) m" by (induction m) simp_all
    then show ?case by (cases "m @ s") (simp_all add: )
  next
    case (Cons c p)
    then show ?case by simp
  qed
  have third: "\<exists>msg. fst (fetchWithProxies proxies w targetUrl responseParser)
                         = Inl (ErrorObject (JsError PlainError msg))
                     \<and> jsIncludes msg (message recorded)"
    if "\<not> jsIncludes (message recorded) (js ''Timeout'')"
      "\<not> (err_class recorded = TypeError \<and> jsIncludes (message recorded) (js ''fetch''))"
      "message recorded \<noteq> []"
  proof -
    have "?msg = MSG_ALL_FAILED_PREFIX @ message recorded @ MSG_ALL_FAILED_SUFFIX"
      using that by auto
    then show ?thesis
      using run embeds [of MSG_ALL_FAILED_PREFIX "message recorded" MSG_ALL_FAILED_SUFFIX] by auto
  qed
  from count run third show ?thesis by auto
qed

text \<open>With the three relays of the source and every connection refused: six requests, and the connectivity message.\<close>

theorem fetchWithProxies_all_attempts_throw_witness:
  "requestCount (snd (fetchWithProxies (PROXIES exampleEncode) refusedWorld exampleUrl rejectingParser)) = 6
   \<and> fst (fetchWithProxies (PROXIES exampleEncode) refusedWorld exampleUrl rejectingParser)
       = Inl (ErrorObject (JsError PlainError MSG_NETWORK))"
proof -
  have ne: "PROXIES exampleEncode \<noteq> []"
    by (simp add: PROXIES_def)
  have all: "\<forall>i<length (PROXIES exampleEncode). \<forall>a. 1 \<le> a \<and> a \<le> MAX_RETRIES_PER_PROXY \<longrightarrow>
      isl (fetchWithTimeout (refusedWorld i a) (buildUrl (PROXIES exampleEncode ! i) exampleUrl)
             FETCH_TIMEOUT_MS)"
    by (simp add: refusedWorld_def fetchWithTimeout_def FETCH_TIMEOUT_MS_def)
  have final: "fetchWithTimeout (refusedWorld (length (PROXIES exampleEncode) - 1) MAX_RETRIES_PER_PROXY)
      (buildUrl (last (PROXIES exampleEncode)) exampleUrl) FETCH_TIMEOUT_MS
      = Inl (ErrorObject (JsError TypeError (js ''Failed to fetch'')))"
    by (simp add: refusedWorld_def fetchWithTimeout_def FETCH_TIMEOUT_MS_def)
  have recorded: "JsError TypeError (js ''Failed to fetch'')
      = (case ErrorObject (JsError TypeError (js ''Failed to fetch'')) of
           ErrorObject err \<Rightarrow> err
         | NonError v \<Rightarrow> JsError PlainError MSG_UNKNOWN_REQUEST)"
    by simp
  have cls: "\<not> jsIncludes (js ''Failed to fetch'') (js ''Timeout'')"
    "jsIncludes (js ''Failed to fetch'') (js ''fetch'')"
    by (simp_all add: js_def)
  show ?thesis
    using fetchWithProxies_all_attempts_throw [OF ne all final recorded, of rejectingParser] cls
    by (simp add: PROXIES_def MAX_RETRIES_PER_PROXY_def)
qed

lemma tryBlock_not_ok:
  "fetchWithTimeout fetch url FETCH_TIMEOUT_MS = Inr r \<Longrightarrow> \<not> ok r \<Longrightarrow>
   tryBlock fetch p rp url = BreakHttp (status r)"
  by (simp add: tryBlock_def)

text \<open>
  Claim C6. When an attempt on a strategy receives a response whose status is not
  successful (\<open>response.ok\<close> is false), the loop over the attempts of that strategy ends
  at once: the HTTP-status error is recorded, the attempt's request is the last one made on
  the strategy, and the outer loop goes on with the next strategy.
\<close>

theorem non_ok_status_moves_to_next_strategy:
  assumes "1 \<le> attempt" and "attempt \<le> MAX_RETRIES_PER_PROXY"
    and "fetchWithTimeout (w idx attempt) (buildUrl p targetUrl) FETCH_TIMEOUT_MS = Inr r"
    and "\<not> ok r"
  shows "attemptLoop (w idx) p responseParser (buildUrl p targetUrl) attempt st
           = (None, \<lparr>lastKnownError = Some (httpError (status r)),
                     trace = trace st @ [Request (buildUrl p targetUrl)]\<rparr>)
       \<and> (attempt = 1 \<longrightarrow>
            proxyLoop w responseParser targetUrl idx (p # ps) st
              = proxyLoop w responseParser targetUrl (idx + 1) ps
                  \<lparr>lastKnownError = Some (httpError (status r)),
                   trace = trace st @ [Request (buildUrl p targetUrl)]\<rparr>)"
proof -
  have exit: "tryBlock (w idx attempt) p responseParser (buildUrl p targetUrl) = BreakHttp (status r)"
    using assms(3,4) by (rule tryBlock_not_ok)
  have loop: "attemptLoop (w idx) p responseParser (buildUrl p targetUrl) attempt st
           = (None, \<lparr>lastKnownError = Some (httpError (status r)),
                     trace = trace st @ [Request (buildUrl p targetUrl)]\<rparr>)"
    using assms(2) exit by (rule attemptLoop_BreakHttp)
  then show ?thesis by auto
qed

text \<open>The first relay of the source answering 503 on the first attempt.\<close>

theorem non_ok_status_moves_to_next_strategy_witness:
  "attemptLoop (unavailableWorld 0) (hd (PROXIES exampleEncode)) rejectingParser
     (js ''https://corsproxy.io/?https://example.com/q'') 1 initialState
   = (None, \<lparr>lastKnownError = Some (httpError 503),
             trace = [Request (js ''https://corsproxy.io/?https://example.com/q'')]\<rparr>)"
  using non_ok_status_moves_to_next_strategy [of 1 unavailableWorld 0 "hd (PROXIES exampleEncode)"
      exampleUrl unavailableResponse rejectingParser initialState "[]"]
  by (simp add: PROXIES_def unavailableWorld_def unavailableResponse_def fetchWithTimeout_def
      FETCH_TIMEOUT_MS_def MAX_RETRIES_PER_PROXY_def ok_def exampleEncode_def exampleUrl_def
      initialState_def js_def)

lemma attemptLoop_last_trace:
  "trace (snd (attemptLoop fetches p rp url MAX_RETRIES_PER_PROXY st)) = trace st @ [Request url]"
proof (cases "tryBlock (fetches MAX_RETRIES_PER_PROXY) p rp url")
  case (Returned v)
  then show ?thesis by (simp add: attemptLoop_Returned)
next
  case (BreakHttp s)
  then show ?thesis by (simp add: attemptLoop_BreakHttp)
next
  case ContinueEmpty
  then show ?thesis by (simp add: attemptLoop_ContinueEmpty attemptLoop_past)
next
  case (Thrown e)
  then show ?thesis by (simp add: attemptLoop_Thrown_last)
qed

lemmas example_defs = PROXIES_def exampleEncode_def exampleUrl_def fetchWithProxies_def
  initialState_def tryBlock_def fetchWithTimeout_def FETCH_TIMEOUT_MS_def MAX_RETRIES_PER_PROXY_def
  ok_def textResponse_def alloriginsResponse_def js_def

text \<open>
  Claim C5 says that every retry of a strategy waits one second first, the retry after an
  empty payload included. With every relay answering 200 and an empty payload, the two
  requests to the first relay and the two to the third follow one another with no delay
  between them (the second relay throws on an empty \<open>contents\<close>, and that retry does wait).
\<close>

theorem empty_payload_retry_has_no_delay:
  "snd (fetchWithProxies (PROXIES exampleEncode) emptyWorld exampleUrl rejectingParser)
   = [Request (js ''https://corsproxy.io/?https://example.com/q''),
      Request (js ''https://corsproxy.io/?https://example.com/q''),
      Request (js ''https://api.allorigins.win/get?url=https://example.com/q''),
      Sleep RETRY_DELAY_MS,
      Request (js ''https://api.allorigins.win/get?url=https://example.com/q''),
      Request (js ''https://thingproxy.freeboard.io/fetch/https://example.com/q''),
      Request (js ''https://thingproxy.freeboard.io/fetch/https://example.com/q'')]"
  by (simp add: example_defs attemptLoop.simps emptyWorld_def emptyResponse_def)

text \<open>
  Claim C5, amended. A retry that follows a thrown exception is preceded by the delay of
  \<open>RETRY_DELAY_MS\<close>; a retry that follows an empty payload is made at once, with no
  delay; and a strategy that gives an empty payload on both attempts is left after the
  second, with the empty-content error recorded.
\<close>

theorem retry_delay_only_after_exception:
  "(tryBlock (fetches 1) p responseParser url = Thrown e \<longrightarrow>
      trace (snd (attemptLoop fetches p responseParser url 1 st))
        = trace st @ [Request url, Sleep RETRY_DELAY_MS, Request url])
   \<and> (tryBlock (fetches 1) p responseParser url = ContinueEmpty \<longrightarrow>
      trace (snd (attemptLoop fetches p responseParser url 1 st))
        = trace st @ [Request url, Request url])
   \<and> (tryBlock (fetches 1) p responseParser url = ContinueEmpty
        \<and> tryBlock (fetches 2) p responseParser url = ContinueEmpty \<longrightarrow>
      attemptLoop fetches p responseParser url 1 st
        = (None, \<lparr>lastKnownError = Some emptyContentError,
                  trace = trace st @ [Request url, Request url]\<rparr>))"
proof -
  have one: "(1::nat) < MAX_RETRIES_PER_PROXY" "(1::nat) \<le> MAX_RETRIES_PER_PROXY"
    and two: "Suc 1 = MAX_RETRIES_PER_PROXY" "Suc 1 \<le> MAX_RETRIES_PER_PROXY"
    and three: "MAX_RETRIES_PER_PROXY < Suc (Suc 1)"
    by (simp_all add: MAX_RETRIES_PER_PROXY_def)
  have lt: "trace (snd (attemptLoop fetches p responseParser url (Suc 1) st')) = trace st' @ [Request url]"
    for st'
    unfolding two(1) by (rule attemptLoop_last_trace)
  have a: "trace (snd (attemptLoop fetches p responseParser url 1 st))
        = trace st @ [Request url, Sleep RETRY_DELAY_MS, Request url]"
    if "tryBlock (fetches 1) p responseParser url = Thrown e"
  proof -
    have "attemptLoop fetches p responseParser url 1 st
        = attemptLoop fetches p responseParser url (Suc 1)
            \<lparr>lastKnownError = Some (caught e), trace = trace st @ [Request url, Sleep RETRY_DELAY_MS]\<rparr>"
      using one(1) that by (rule attemptLoop_Thrown_retry)
    then show ?thesis by (simp only: lt) simp
  qed
  have b: "trace (snd (attemptLoop fetches p responseParser url 1 st))
        = trace st @ [Request url, Request url]"
    if "tryBlock (fetches 1) p responseParser url = ContinueEmpty"
  proof -
    have "attemptLoop fetches p responseParser url 1 st
        = attemptLoop fetches p responseParser url (Suc 1)
            \<lparr>lastKnownError = Some emptyContentError, trace = trace st @ [Request url]\<rparr>"
      using one(2) that by (rule attemptLoop_ContinueEmpty)
    then show ?thesis by (simp only: lt) simp
  qed
  have c: "attemptLoop fetches p responseParser url 1 st
        = (None, \<lparr>lastKnownError = Some emptyContentError,
                  trace = trace st @ [Request url, Request url]\<rparr>)"
    if e1: "tryBlock (fetches 1) p responseParser url = ContinueEmpty"
      and e2: "tryBlock (fetches 2) p responseParser url = ContinueEmpty"
  proof -
    have e2': "tryBlock (fetches (Suc 1)) p responseParser url = ContinueEmpty"
      using e2 by (simp add: numeral_2_eq_2)
    have "attemptLoop fetches p responseParser url 1 st
        = attemptLoop fetches p responseParser url (Suc 1)
            \<lparr>lastKnownError = Some emptyContentError, trace = trace st @ [Request url]\<rparr>"
      using one(2) e1 by (rule attemptLoop_ContinueEmpty)
    also have "\<dots> = attemptLoop fetches p responseParser url (Suc (Suc 1))
            \<lparr>lastKnownError = Some emptyContentError, trace = trace st @ [Request url, Request url]\<rparr>"
      using attemptLoop_ContinueEmpty [where attempt = "Suc 1" and fetches = fetches, OF two(2) e2']
      by simp
    also have "\<dots> = (None, \<lparr>lastKnownError = Some emptyContentError,
                  trace = trace st @ [Request url, Request url]\<rparr>)"
      using three by (rule attemptLoop_past)
    finally show ?thesis .
  qed
  from a b c show ?thesis by blast
qed

theorem retry_delay_only_after_exception_witness:
  "trace (snd (attemptLoop (refusedWorld 0) (hd (PROXIES exampleEncode)) rejectingParser exampleUrl 1 initialState))
     = [Request exampleUrl, Sleep RETRY_DELAY_MS, Request exampleUrl]
   \<and> attemptLoop (emptyWorld 0) (hd (PROXIES exampleEncode)) rejectingParser exampleUrl 1 initialState
     = (None, \<lparr>lastKnownError = Some emptyContentError, trace = [Request exampleUrl, Request exampleUrl]\<rparr>)"
  using retry_delay_only_after_exception [of "refusedWorld 0" "hd (PROXIES exampleEncode)" rejectingParser
      exampleUrl "ErrorObject (JsError TypeError (js ''Failed to fetch''))" initialState]
    retry_delay_only_after_exception [of "emptyWorld 0" "hd (PROXIES exampleEncode)" rejectingParser
      exampleUrl "ErrorObject (JsError TypeError (js ''Failed to fetch''))" initialState]
  by (simp add: PROXIES_def tryBlock_def fetchWithTimeout_def FETCH_TIMEOUT_MS_def ok_def
      textResponse_def refusedWorld_def emptyWorld_def emptyResponse_def initialState_def)

text \<open>
  Claim C2 says that a successful non-empty payload on the first attempt of a strategy is
  interpreted and returned at once. The interpreter runs inside the \<open>try\<close> block: when
  it throws, the exception is caught like any other and the loops go on. With every relay
  answering 200 with a page, the first attempt on the first relay yields the payload, and
  with an interpreter that rejects it six requests are made and the call throws.
\<close>

theorem interpreter_exception_is_retried:
  "tryBlock (pageWorld 0 1) (PROXIES exampleEncode ! 0) Inr
       (buildUrl (PROXIES exampleEncode ! 0) exampleUrl) = Returned (JStr (js ''<html>''))
   \<and> requestCount (snd (fetchWithProxies (PROXIES exampleEncode) pageWorld exampleUrl rejectingParser)) = 6
   \<and> isl (fst (fetchWithProxies (PROXIES exampleEncode) pageWorld exampleUrl rejectingParser))"
  by (simp add: example_defs attemptLoop.simps pageWorld_def pageResponse_def rejectingParser_def
      requestCount_def)

lemma proxyLoop_no_return:
  assumes "\<forall>i<length ps. \<forall>a. 1 \<le> a \<and> a \<le> MAX_RETRIES_PER_PROXY \<longrightarrow>
             \<not> isReturned (tryBlock (w (idx + i) a) (ps ! i) rp (buildUrl (ps ! i) url))"
  shows "fst (proxyLoop w rp url idx ps st) = None"
  using assms
proof (induction ps arbitrary: idx st)
  case Nil
  then show ?case by simp
next
  case (Cons p ps)
  have "\<not> isReturned (tryBlock (w idx a) p rp (buildUrl p url))"
    if "1 \<le> a" "a \<le> MAX_RETRIES_PER_PROXY" for a
    using Cons.prems [rule_format, of 0 a] that by simp
  then have first: "fst (attemptLoop (w idx) p rp (buildUrl p url) 1 st) = None"
    by (intro attemptLoop_no_return) simp_all
  have rest: "\<forall>i<length ps. \<forall>a. 1 \<le> a \<and> a \<le> MAX_RETRIES_PER_PROXY \<longrightarrow>
             \<not> isReturned (tryBlock (w (Suc idx + i) a) (ps ! i) rp (buildUrl (ps ! i) url))"
  proof (intro allI impI)
    fix i a assume "i < length ps" "1 \<le> a \<and> a \<le> MAX_RETRIES_PER_PROXY"
    with Cons.prems [rule_format, of "Suc i" a]
    show "\<not> isReturned (tryBlock (w (Suc idx + i) a) (ps ! i) rp (buildUrl (ps ! i) url))"
      by simp
  qed
  obtain st1 where st1: "attemptLoop (w idx) p rp (buildUrl p url) 1 st = (None, st1)"
    using first by (cases "attemptLoop (w idx) p rp (buildUrl p url) 1 st") auto
  show ?case
    using Cons.IH [OF rest, of st1] st1 by simp
qed

text \<open>
  Claim C2, amended. If no attempt on the strategies before position \<open>k\<close> returns, the
  first attempt on strategy \<open>k\<close> yields a successful non-empty payload and the
  interpreter returns normally on it, then \<open>fetchWithProxies\<close> returns the interpreter's
  result; the requests made are those of the failing strategies followed by the single
  request to strategy \<open>k\<close>.
\<close>

theorem first_success_returns_immediately:
  assumes "k < length proxies"
    and "\<forall>j<k. \<forall>a. 1 \<le> a \<and> a \<le> MAX_RETRIES_PER_PROXY \<longrightarrow>
           \<not> isReturned (tryBlock (w j a) (proxies ! j) responseParser (buildUrl (proxies ! j) targetUrl))"
    and "fetchWithTimeout (w k 1) (buildUrl (proxies ! k) targetUrl) FETCH_TIMEOUT_MS = Inr r"
    and "ok r"
    and "parseResponse (proxies ! k) r = Inr payload"
    and "truthy payload"
    and "responseParser payload = Inr v"
  shows "fetchWithProxies proxies w targetUrl responseParser
           = (Inr v, snd (fetchWithProxies (take k proxies) w targetUrl responseParser)
                       @ [Request (buildUrl (proxies ! k) targetUrl)])"
proof -
  let ?p = "proxies ! k"
  have split: "proxies = take k proxies @ ?p # drop (Suc k) proxies"
    using assms(1) by (rule id_take_nth_drop)
  have len: "length (take k proxies) = k"
    using assms(1) by simp
  have fails: "\<forall>i<length (take k proxies). \<forall>a. 1 \<le> a \<and> a \<le> MAX_RETRIES_PER_PROXY \<longrightarrow>
       \<not> isReturned (tryBlock (w (0 + i) a) (take k proxies ! i) responseParser
                       (buildUrl (take k proxies ! i) targetUrl))"
    using assms(2) by simp
  obtain st1 where st1: "proxyLoop w responseParser targetUrl 0 (take k proxies) initialState = (None, st1)"
    using proxyLoop_no_return [OF fails, of initialState]
    by (cases "proxyLoop w responseParser targetUrl 0 (take k proxies) initialState") auto
  have prefix: "snd (fetchWithProxies (take k proxies) w targetUrl responseParser) = trace st1"
    by (simp add: fetchWithProxies_def st1)
  have exit: "tryBlock (w k 1) ?p responseParser (buildUrl ?p targetUrl) = Returned v"
    using assms(3-7) by (simp add: tryBlock_def)
  have one: "(1::nat) \<le> MAX_RETRIES_PER_PROXY"
    by (simp add: MAX_RETRIES_PER_PROXY_def)
  have hit: "attemptLoop (w k) ?p responseParser (buildUrl ?p targetUrl) 1 st1
      = (Some v, \<lparr>lastKnownError = lastKnownError st1,
                  trace = trace st1 @ [Request (buildUrl ?p targetUrl)]\<rparr>)"
    using one exit by (rule attemptLoop_Returned)
  have "proxyLoop w responseParser targetUrl 0 proxies initialState
      = proxyLoop w responseParser targetUrl 0 (take k proxies @ ?p # drop (Suc k) proxies) initialState"
    using split by simp
  also have "\<dots> = proxyLoop w responseParser targetUrl k (?p # drop (Suc k) proxies) st1"
    by (simp only: proxyLoop_append st1 len) simp
  also have "\<dots> = (Some v, \<lparr>lastKnownError = lastKnownError st1,
                  trace = trace st1 @ [Request (buildUrl ?p targetUrl)]\<rparr>)"
    using hit by simp
  finally have "proxyLoop w responseParser targetUrl 0 proxies initialState
      = (Some v, \<lparr>lastKnownError = lastKnownError st1,
                  trace = trace st1 @ [Request (buildUrl ?p targetUrl)]\<rparr>)" .
  then show ?thesis
    unfolding prefix by (simp add: fetchWithProxies_def)
qed

theorem first_success_returns_immediately_witness:
  "fetchWithProxies (PROXIES exampleEncode) fallbackWorld exampleUrl identityParser
     = (Inr (JStr (js ''<html>'')),
        [Request (js ''https://corsproxy.io/?https://example.com/q''),
         Sleep RETRY_DELAY_MS,
         Request (js ''https://corsproxy.io/?https://example.com/q''),
         Request (js ''https://api.allorigins.win/get?url=https://example.com/q'')])"
proof -
  have prefix: "snd (fetchWithProxies (take 1 (PROXIES exampleEncode)) fallbackWorld exampleUrl identityParser)
     = [Request (js ''https://corsproxy.io/?https://example.com/q''),
         Sleep RETRY_DELAY_MS,
         Request (js ''https://corsproxy.io/?https://example.com/q'')]"
    by (simp add: example_defs attemptLoop.simps fallbackWorld_def)
  have k: "1 < length (PROXIES exampleEncode)"
    by (simp add: PROXIES_def)
  have fails: "\<forall>j<1. \<forall>a. 1 \<le> a \<and> a \<le> MAX_RETRIES_PER_PROXY \<longrightarrow>
      \<not> isReturned (tryBlock (fallbackWorld j a) (PROXIES exampleEncode ! j) identityParser
                      (buildUrl (PROXIES exampleEncode ! j) exampleUrl))"
    by (simp add: PROXIES_def tryBlock_def fetchWithTimeout_def fallbackWorld_def FETCH_TIMEOUT_MS_def)
  have responds: "fetchWithTimeout (fallbackWorld 1 1) (buildUrl (PROXIES exampleEncode ! 1) exampleUrl)
      FETCH_TIMEOUT_MS = Inr pageResponse"
    by (simp add: fetchWithTimeout_def fallbackWorld_def FETCH_TIMEOUT_MS_def)
  have ok: "ok pageResponse"
    by (simp add: ok_def pageResponse_def)
  have payload: "parseResponse (PROXIES exampleEncode ! 1) pageResponse = Inr (JStr (js ''<html>''))"
    by (simp add: PROXIES_def alloriginsResponse_def pageResponse_def js_def)
  have truthy: "truthy (JStr (js ''<html>''))"
    by (simp add: js_def)
  have interp: "identityParser (JStr (js ''<html>'')) = Inr (JStr (js ''<html>''))"
    by (simp add: identityParser_def)
  have url: "buildUrl (PROXIES exampleEncode ! 1) exampleUrl
      = js ''https://api.allorigins.win/get?url=https://example.com/q''"
    by (simp add: PROXIES_def exampleEncode_def exampleUrl_def js_def)
  show ?thesis
    using first_success_returns_immediately [OF k fails responds ok payload truthy interp]
    by (simp only: prefix url) simp
qed

text \<open>
  Claim C4. When no request settles before the timer of \<open>fetchWithTimeout\<close> fires, each
  attempt ends with the rejection value \<^verbatim>\<open>'Timeout'\<close>, a string. The \<open>catch\<close> clause
  replaces a value that is not an \<open>Error\<close> by the unknown-request error, whose message
  does not contain \<^verbatim>\<open>Timeout\<close>: the call throws the generic message, not the timeout
  message. When every connection is refused it throws the connectivity message.
\<close>

theorem timeout_is_not_classified_as_timeout:
  "fst (fetchWithProxies (PROXIES exampleEncode) stalledWorld exampleUrl rejectingParser)
     = Inl (new_Error (MSG_ALL_FAILED_PREFIX @ MSG_UNKNOWN_REQUEST @ MSG_ALL_FAILED_SUFFIX))
   \<and> fst (fetchWithProxies (PROXIES exampleEncode) stalledWorld exampleUrl rejectingParser)
     \<noteq> Inl (new_Error MSG_TIMEOUT)
   \<and> fst (fetchWithProxies (PROXIES exampleEncode) refusedWorld exampleUrl rejectingParser)
     = Inl (new_Error MSG_NETWORK)"
  by (simp add: example_defs attemptLoop.simps stalledWorld_def refusedWorld_def caught_def
      ABORT_REASON_def finalError_def new_Error_def MSG_UNKNOWN_REQUEST_def MSG_ALL_FAILED_PREFIX_def
      MSG_ALL_FAILED_SUFFIX_def MSG_TIMEOUT_def)

section \<open>Properties of the extractor\<close>

lemmas extractor_defs = potentialJson_def searchText_def js_def trim_def isWhiteSpace_def FENCE_def
  fenceOpenings_def spaceBackoff_def closesFence_def endIndexOf_def balancedEnd_def substring_def

lemmas reference_defs = referenceParse_def isJsonSpace_def unescape_def parseInteger_def isDigit_def js_def

lemma lastIndexOf_bounds: "-1 \<le> lastIndexOf s ch \<and> lastIndexOf s ch < int (length s)"
  by (induction s) (auto simp: Let_def)

lemma searchOpen_bounds: "-1 \<le> searchOpen s \<and> searchOpen s < int (length s)"
  by (induction s) (auto simp: Let_def)

lemma substring_slice:
  "0 \<le> a \<Longrightarrow> a \<le> e \<Longrightarrow> e < int (length s) \<Longrightarrow>
   substring s a (e + 1) = take (nat (e - a + 1)) (drop (nat a) s)"
  by (simp add: substring_def Let_def min_def max_def algebra_simps)

text \<open>
  Claim C8 says that whenever the depth never returns to zero, the slice from the start
  index through the fallback end index is handed to the parser. On \<^verbatim>\<open>{abc\<close> the depth
  never returns to zero and there is no closing brace or bracket: the end index stays \<open>-1\<close>
  and line 111 throws before the parser is reached. On \<^verbatim>\<open>] {\<close> the only closing bracket
  stands before the start index 2: the end index is 0, and \<open>substring(2, 1)\<close> swaps its
  arguments and hands the parser the blank between the two.
\<close>

theorem unbalanced_text_without_closer:
  \<open>balancedEnd (searchText (js ''{abc'')) (searchOpen (searchText (js ''{abc''))) = -1
   \<and> potentialJson (js ''{abc'') = Inl (new_Error MSG_NO_JSON_END)
   \<and> searchOpen (searchText (js ''] {'')) = 2
   \<and> balancedEnd (searchText (js ''] {'')) 2 = -1
   \<and> endIndexOf (searchText (js ''] {'')) 2 = 0
   \<and> potentialJson (js ''] {'') = Inr (js '' '')\<close>
  by (simp add: extractor_defs)

text \<open>
  Claim C8, amended. Whenever the depth counter never returns to zero during the forward
  scan, the end index is set to the larger of the index of the last \<open>}\<close> and the index of
  the last \<open>]\<close> in the search text. If neither occurs, the function throws the no-end
  error and the parser is not called. If the end index is not before the start index, the
  slice from the start index through the end index inclusive is what is passed to the
  parser.
\<close>

theorem fallback_end_index:
  assumes "jsonString = searchText text'"
    and "startIndex = searchOpen jsonString"
    and "startIndex \<noteq> -1"
    and "balancedEnd jsonString startIndex = -1"
    and "endIndex = max (lastIndexOf jsonString RBRACE) (lastIndexOf jsonString RBRACKET)"
  shows "endIndexOf jsonString startIndex = endIndex
       \<and> (endIndex = -1 \<longrightarrow>
            extractJsonFromText JSON_parse text' = Inl (new_Error MSG_NO_JSON_END))
       \<and> (startIndex \<le> endIndex \<longrightarrow>
            extractJsonFromText JSON_parse text'
              = parseCandidate JSON_parse
                  (take (nat (endIndex - startIndex + 1)) (drop (nat startIndex) jsonString)))"
proof -
  have e: "endIndexOf jsonString startIndex = endIndex"
    using assms(4,5) by (simp add: endIndexOf_def)
  have start: "0 \<le> startIndex"
    using searchOpen_bounds [of jsonString] assms(2,3) by simp
  have hi: "endIndex < int (length jsonString)"
    using lastIndexOf_bounds [of jsonString RBRACE] lastIndexOf_bounds [of jsonString RBRACKET] assms(5)
    by simp
  have none: "potentialJson text' = Inl (new_Error MSG_NO_JSON_END)" if "endIndex = -1"
    using that e assms(1,2,3) by (simp add: potentialJson_def Let_def)
  have slice: "potentialJson text'
              = Inr (take (nat (endIndex - startIndex + 1)) (drop (nat startIndex) jsonString))"
    if le: "startIndex \<le> endIndex"
  proof -
    have "endIndex \<noteq> -1" using le start by simp
    then have "potentialJson text' = Inr (substring jsonString startIndex (endIndex + 1))"
      using e assms(1,2,3) by (simp add: potentialJson_def Let_def)
    then show ?thesis
      by (simp add: substring_slice [OF start le hi])
  qed
  from e none slice show ?thesis by (simp add: extractJsonFromText_def)
qed

text \<open>An object that is never closed, with a closing bracket inside it.\<close>

theorem fallback_end_index_witness:
  \<open>endIndexOf (js ''{"a": [1]'') 0 = 8
   \<and> extractJsonFromText referenceParse (js ''{"a": [1]'') = parseCandidate referenceParse (js ''{"a": [1]'')\<close>
proof -
  have s: \<open>js ''{"a": [1]'' = searchText (js ''{"a": [1]'')\<close>
    by (simp add: extractor_defs)
  have st: \<open>(0::int) = searchOpen (js ''{"a": [1]'')\<close>
    by (simp add: js_def)
  have ne: "(0::int) \<noteq> -1" by simp
  have unb: \<open>balancedEnd (js ''{"a": [1]'') 0 = -1\<close>
    by (simp add: balancedEnd_def js_def)
  have en: \<open>(8::int) = max (lastIndexOf (js ''{"a": [1]'') RBRACE) (lastIndexOf (js ''{"a": [1]'') RBRACKET)\<close>
    by (simp add: js_def)
  show ?thesis
    using fallback_end_index [OF s st ne unb en, of referenceParse] by (simp add: js_def)
qed

text \<open>
  Claim C3. On the text \<open>fencedExample\<close> the search text is the content of the fence, the
  value starts at index 0 and the scan ends at index 21, the last brace: the brace at index
  17, inside the string, does not end it. The parser is handed the whole object, whatever
  the parser is, and with the reference parser the result is the value
  \<^verbatim>\<open>{a: [1, 2, {b: "}"}]}\<close>.
\<close>

theorem extractJsonFromText_fenced_example:
  \<open>searchText fencedExample = js ''{"a": [1,2,{"b":"}"}]}''
   \<and> searchOpen (searchText fencedExample) = 0
   \<and> balancedEnd (searchText fencedExample) 0 = 21
   \<and> extractJsonFromText JSON_parse fencedExample
       = parseCandidate JSON_parse (js ''{"a": [1,2,{"b":"}"}]}'')
   \<and> extractJsonFromText referenceParse fencedExample
       = Inr (JObj [(js ''a'', JArr [JNum 1, JNum 2, JObj [(js ''b'', JStr (js ''}''))]])])\<close>
proof -
  have cand: \<open>potentialJson fencedExample = Inr (js ''{"a": [1,2,{"b":"}"}]}'')\<close>
    by (simp add: fencedExample_def extractor_defs)
  have body: \<open>searchText fencedExample = js ''{"a": [1,2,{"b":"}"}]}''\<close>
    by (simp add: fencedExample_def extractor_defs)
  have st: \<open>searchOpen (js ''{"a": [1,2,{"b":"}"}]}'') = 0\<close>
    by (simp add: js_def)
  have en: \<open>balancedEnd (js ''{"a": [1,2,{"b":"}"}]}'') 0 = 21\<close>
    by (simp add: balancedEnd_def js_def)
  have parsed: \<open>parseCandidate referenceParse (js ''{"a": [1,2,{"b":"}"}]}'')
       = Inr (JObj [(js ''a'', JArr [JNum 1, JNum 2, JObj [(js ''b'', JStr (js ''}''))]])])\<close>
    by (simp add: parseCandidate_def reference_defs)
  show ?thesis
    by (simp only: body st en cand parsed extractJsonFromText_def sum.case simp_thms)
qed

section \<open>Properties of the keyword fan-out\<close>

lemma set_replaceAll: "set (replaceAll m s) \<subseteq> set s"
proof (induction m s rule: replaceAll.induct)
  case (1 m)
  then show ?case by simp
next
  case (2 m c cs)
  show ?case
  proof (cases "m (c # cs)")
    case None
    with 2 show ?thesis by auto
  next
    case (Some n)
    show ?thesis
    proof (cases "n = 0")
      case True
      with 2 Some show ?thesis by auto
    next
      case False
      have "set (replaceAll m (drop (n - 1) cs)) \<subseteq> set (drop (n - 1) cs)"
        using 2(3) [OF Some False] .
      also have "\<dots> \<subseteq> set cs" by (rule set_drop_subset)
      finally show ?thesis using Some False by auto
    qed
  qed
qed

lemma takeWhile_shorter_iff:
  "length (takeWhile P xs) < length xs \<longleftrightarrow> (\<exists>x\<in>set xs. \<not> P x)"
  by (induction xs) auto

lemma matchTag_None_iff:
  "matchTag (c # cs) = None \<longleftrightarrow> c \<noteq> LESS_THAN \<or> GREATER_THAN \<notin> set cs"
proof -
  have "length (takeWhile (\<lambda>x. x \<noteq> GREATER_THAN) cs) < length cs \<longleftrightarrow> GREATER_THAN \<in> set cs"
    by (simp add: takeWhile_shorter_iff)
  then show ?thesis by (simp add: matchTag_def Let_def)
qed

lemma matchTag_Nil: "matchTag [] = None"
  by (simp add: matchTag_def)

lemma replaceAll_matchTag_no_tag: "\<not> regexTest matchTag (replaceAll matchTag s)"
proof (induction "matchTag" s rule: replaceAll.induct)
  case 1
  then show ?case by (simp add: matchTag_Nil)
next
  case (2 c cs)
  show ?case
  proof (cases "matchTag (c # cs)")
    case None
    then have "c \<noteq> LESS_THAN \<or> GREATER_THAN \<notin> set cs"
      by (simp add: matchTag_None_iff)
    then have "c \<noteq> LESS_THAN \<or> GREATER_THAN \<notin> set (replaceAll matchTag cs)"
      using set_replaceAll [of matchTag cs] by blast
    then have "matchTag (c # replaceAll matchTag cs) = None"
      by (simp add: matchTag_None_iff)
    with None 2(1) show ?thesis by simp
  next
    case (Some n)
    then have "n \<noteq> 0"
      by (auto simp: matchTag_def Let_def split: if_splits)
    with Some 2(3) show ?thesis by simp
  qed
qed

lemma distinct_setAdd: "distinct elems \<Longrightarrow> distinct (setAdd elems x)"
  by (simp add: setAdd_def)

lemma distinct_addSuggestions: "distinct acc \<Longrightarrow> distinct (addSuggestions acc kws)"
  unfolding addSuggestions_def
  by (induction kws arbitrary: acc) (simp_all add: distinct_setAdd)

lemma distinct_collect_from: 
  "distinct acc \<Longrightarrow> distinct (fold (\<lambda>suggestions acc. addSuggestions acc suggestions) rs acc)"
  by (induction rs arbitrary: acc) (simp_all add: distinct_addSuggestions)

lemma distinct_collectSuggestions: "distinct (collectSuggestions rs)"
  by (simp add: collectSuggestions_def distinct_collect_from)


lemma tagFree_setAdd: "tagFree elems \<Longrightarrow> \<not> regexTest matchTag x \<Longrightarrow> tagFree (setAdd elems x)"
  by (simp add: setAdd_def tagFree_def)

lemma tagFree_addSuggestions: "tagFree acc \<Longrightarrow> tagFree (addSuggestions acc kws)"
  unfolding addSuggestions_def
  by (induction kws arbitrary: acc) (simp_all add: tagFree_setAdd replaceAll_matchTag_no_tag)

lemma tagFree_collect_from:
  "tagFree acc \<Longrightarrow> tagFree (fold (\<lambda>suggestions acc. addSuggestions acc suggestions) rs acc)"
  by (induction rs arbitrary: acc) (simp_all add: tagFree_addSuggestions)

lemma tagFree_collectSuggestions: "tagFree (collectSuggestions rs)"
  unfolding collectSuggestions_def by (rule tagFree_collect_from) (simp add: tagFree_def)

lemma length_numbered: "length (numbered kws) = length kws"
  by (simp add: numbered_def)

lemma ids_numbered: "map id' (numbered kws) = [1..<Suc (length kws)]"
proof -
  have "map id' (numbered kws) = map (Suc \<circ> fst) (enumerate 0 kws)"
    by (simp add: numbered_def case_prod_unfold comp_def)
  also have "\<dots> = map Suc (map fst (enumerate 0 kws))"
    by (simp only: map_map)
  also have "\<dots> = map Suc [0..<length kws]"
    by (simp only: map_fst_enumerate add_0)
  also have "\<dots> = [1..<Suc (length kws)]"
    by (simp add: map_Suc_upt)
  finally show ?thesis .
qed

lemma keywords_numbered: "map keyword (numbered kws) = kws"
proof -
  have "map keyword (numbered kws) = map snd (enumerate 0 kws)"
    by (simp add: numbered_def case_prod_unfold comp_def)
  then show ?thesis by simp
qed










text \<open>
  Claim C9. Whenever \<open>fetchRelatedKeywords\<close> returns, for either source, the list has at
  most 20 entries and their \<open>id\<close> fields are 1, 2, ... up to its length, in order; on the
  Naver path the keywords are strings, no two of them equal, and none holds an HTML tag.
\<close>

theorem fetchRelatedKeywords_result_shape:
  assumes "fetchRelatedKeywords encodeURIComponent JSON_parse ws kw source = Inr ks"
  shows "length ks \<le> 20
       \<and> map id' ks = [1..<Suc (length ks)]
       \<and> (source = naver \<longrightarrow>
            (\<exists>strs. map keyword ks = map JStr strs \<and> distinct strs
                     \<and> (\<forall>s\<in>set strs. \<not> regexTest matchTag s)))"
proof (cases source)
  case google
  from assms google obtain suggestions where
    ks: "ks = numbered (take 20 suggestions)"
    by (auto simp: fetchRelatedKeywords_def split: if_splits sum.splits)
  show ?thesis
    using google by (simp add: ks length_numbered ids_numbered)
next
  case naver
  let ?settlements = "naverSettlements encodeURIComponent JSON_parse ws kw"
  let ?strs = "take 20 (collectSuggestions (fulfilled ?settlements))"
  from assms naver have fan: "naverFanIn kw ?settlements = Inr ks"
    by (simp add: fetchRelatedKeywords_def split: if_splits)
  then have ks: "ks = numbered (map JStr ?strs)"
    by (simp add: naverFanIn_def Let_def split: if_splits)
  have d: "distinct ?strs"
    by (simp add: distinct_collectSuggestions)
  have "tagFree (collectSuggestions (fulfilled ?settlements))"
    by (rule tagFree_collectSuggestions)
  then have t: "\<forall>s\<in>set ?strs. \<not> regexTest matchTag s"
    by (auto simp: tagFree_def list_all_iff dest: in_set_takeD)
  have k: "map keyword ks = map JStr ?strs"
    by (simp add: ks keywords_numbered)
  from k d t have "\<exists>strs. map keyword ks = map JStr strs \<and> distinct strs
                     \<and> (\<forall>s\<in>set strs. \<not> regexTest matchTag s)"
    by blast
  then show ?thesis
    by (simp add: ks length_numbered ids_numbered)
qed

lemma refused_fetch:
  "fst (fetchWithProxies (PROXIES enc) refusedWorld url P) = Inl (new_Error MSG_NETWORK)"
  by (simp add: PROXIES_def fetchWithProxies_def initialState_def tryBlock_def fetchWithTimeout_def
      FETCH_TIMEOUT_MS_def MAX_RETRIES_PER_PROXY_def attemptLoop.simps refusedWorld_def caught_def
      finalError_def js_def)

lemma suggest_fetch:
  \<open>fst (fetchWithProxies (PROXIES enc) suggestWorld url referenceParse)
     = Inr (JObj [(js ''items'', JArr [JArr [JArr [JStr (js ''<b>ab</b>c'')], JArr [JStr (js ''abc'')],
                                             JArr [JStr (js ''ab'')]]])])\<close>
  by (simp add: PROXIES_def fetchWithProxies_def initialState_def tryBlock_def fetchWithTimeout_def
      FETCH_TIMEOUT_MS_def MAX_RETRIES_PER_PROXY_def attemptLoop.simps suggestWorld_def
      suggestResponse_def ok_def textResponse_def reference_defs)

lemma suggest_keywords:
  "fetchSingleTermKeywords_naver enc referenceParse suggestWorld t
     = Inr [js ''<b>ab</b>c'', js ''abc'', js ''ab'']"
  by (simp add: fetchSingleTermKeywords_naver_def suggest_fetch naverParser_def)

lemma refused_keywords:
  "fetchSingleTermKeywords_naver enc P refusedWorld t = Inl (new_Error MSG_NETWORK)"
  by (simp add: fetchSingleTermKeywords_naver_def refused_fetch)

lemma fulfilled_replicate_Inl: "fulfilled (replicate n (Inl e)) = []"
  by (induction n) simp_all

lemma replicate_14: "replicate 14 x = [x, x, x, x, x, x, x, x, x, x, x, x, x, x]"
  by (simp add: numeral_eq_Suc)

lemma example_run:
  "fetchRelatedKeywords exampleEncode referenceParse naverWorlds (js ''ab'') naver
     = Inr [\<lparr>id' = 1, keyword = JStr (js ''abc'')\<rparr>, \<lparr>id' = 2, keyword = JStr (js ''ab'')\<rparr>]"
proof -
  have kw: "trim (js ''ab'') \<noteq> []"
    by (simp add: trim_def js_def isWhiteSpace_def)
  have settle: "naverSettlements exampleEncode referenceParse naverWorlds (js ''ab'')
      = Inr [js ''<b>ab</b>c'', js ''abc'', js ''ab''] # replicate 14 (Inl (new_Error MSG_NETWORK))"
    unfolding replicate_14
    by (simp add: naverSettlements_def searchTerms_def POSTFIXES_def naverWorlds_def suggest_keywords
        refused_keywords)
  have "fetchRelatedKeywords exampleEncode referenceParse naverWorlds (js ''ab'') naver
      = naverFanIn (js ''ab'') (naverSettlements exampleEncode referenceParse naverWorlds (js ''ab''))"
    using kw by (simp add: fetchRelatedKeywords_def)
  also have "\<dots> = naverFanIn (js ''ab'')
      (Inr [js ''<b>ab</b>c'', js ''abc'', js ''ab''] # replicate 14 (Inl (new_Error MSG_NETWORK)))"
    by (simp only: settle)
  also have "\<dots> = Inr [\<lparr>id' = 1, keyword = JStr (js ''abc'')\<rparr>, \<lparr>id' = 2, keyword = JStr (js ''ab'')\<rparr>]"
    by (simp add: naverFanIn_def fulfilled_replicate_Inl collectSuggestions_def addSuggestions_def
        setAdd_def matchTag_def numbered_def js_def)
  finally show ?thesis .
qed

theorem fetchRelatedKeywords_result_shape_witness:
  "fetchRelatedKeywords exampleEncode referenceParse naverWorlds (js ''ab'') naver
     = Inr [\<lparr>id' = 1, keyword = JStr (js ''abc'')\<rparr>, \<lparr>id' = 2, keyword = JStr (js ''ab'')\<rparr>]
   \<and> length [\<lparr>id' = 1, keyword = JStr (js ''abc'')\<rparr>, \<lparr>id' = 2, keyword = JStr (js ''ab'')\<rparr>] \<le> 20
   \<and> map id' [\<lparr>id' = 1, keyword = JStr (js ''abc'')\<rparr>, \<lparr>id' = 2, keyword = JStr (js ''ab'')\<rparr>]
       = [1..<Suc (length [\<lparr>id' = 1, keyword = JStr (js ''abc'')\<rparr>, \<lparr>id' = 2, keyword = JStr (js ''ab'')\<rparr>])]"
  using example_run fetchRelatedKeywords_result_shape [OF example_run] by blast

section \<open>Properties of the cleaned search results\<close>

lemma last_dropWhile: "dropWhile P xs \<noteq> [] \<Longrightarrow> last (dropWhile P xs) = last xs"
  by (induction xs) (auto split: if_splits)

lemma trimmed_trim: "trimmed (trim s)"
proof (cases "trim s = []")
  case True
  then show ?thesis by (simp add: trimmed_def)
next
  case False
  let ?t = "dropWhile isWhiteSpace s"
  let ?u = "dropWhile isWhiteSpace (rev ?t)"
  have u: "?u \<noteq> []" using False by (simp add: trim_def)
  have t: "?t \<noteq> []"
  proof
    assume a: "?t = []"
    have "?u = []" unfolding a by simp
    with u show False by contradiction
  qed
  have "last (trim s) = hd ?u"
    by (simp add: trim_def last_rev)
  then have l: "\<not> isWhiteSpace (last (trim s))"
    using hd_dropWhile [OF u] by simp
  have "hd (trim s) = last ?u"
    by (simp add: trim_def hd_rev)
  also have "\<dots> = last (rev ?t)"
    using u by (rule last_dropWhile)
  also have "\<dots> = hd ?t"
    by (simp add: last_rev)
  finally have h: "\<not> isWhiteSpace (hd (trim s))"
    using hd_dropWhile [OF t] by simp
  from h l show ?thesis by (simp add: trimmed_def)
qed

lemma set_trim: "set (trim s) \<subseteq> set s"
  by (auto simp: trim_def dest!: set_dropWhileD)

lemma matchCitation_Some_bracket:
  "matchCitation s = Some n \<Longrightarrow> s \<noteq> [] \<and> hd s = LBRACKET \<and> n \<noteq> 0"
  by (auto simp: matchCitation_def Let_def split: list.splits if_splits)

lemma no_bracket_no_citation: "LBRACKET \<notin> set s \<Longrightarrow> \<not> regexTest matchCitation s"
proof (induction s)
  case Nil
  then show ?case by (simp add: matchCitation_def)
next
  case (Cons c cs)
  have "matchCitation (c # cs) = None"
  proof (cases "matchCitation (c # cs)")
    case None
    then show ?thesis .
  next
    case (Some n)
    from matchCitation_Some_bracket [OF Some] Cons.prems show ?thesis by simp
  qed
  with Cons show ?case by simp
qed

lemma everyBracketCited_drop: "everyBracketCited s \<Longrightarrow> everyBracketCited (drop n s)"
proof (induction s arbitrary: n)
  case Nil
  then show ?case by simp
next
  case (Cons c cs)
  then show ?case by (cases n) simp_all
qed

lemma replaceAll_citations_no_bracket_aux:
  "m = matchCitation \<Longrightarrow> everyBracketCited s \<Longrightarrow> LBRACKET \<notin> set (replaceAll m s)"
proof (induction m s rule: replaceAll.induct)
  case (1 m)
  then show ?case by simp
next
  case (2 m c cs)
  from "2.prems" have rest: "everyBracketCited cs" by simp
  show ?case
  proof (cases "m (c # cs)")
    case None
    with "2.prems" have "c \<noteq> LBRACKET" by auto
    with None "2.IH"(1) "2.prems"(1) rest show ?thesis by simp
  next
    case (Some n)
    then have n: "n \<noteq> 0" using matchCitation_Some_bracket "2.prems"(1) by blast
    have "everyBracketCited (drop (n - 1) cs)"
      using rest by (rule everyBracketCited_drop)
    with Some n "2.IH"(3) "2.prems"(1) show ?thesis by simp
  qed
qed

lemma replaceAll_citations_no_bracket:
  "everyBracketCited s \<Longrightarrow> LBRACKET \<notin> set (replaceAll matchCitation s)"
  by (rule replaceAll_citations_no_bracket_aux) simp_all

lemma cleanField_props:
  assumes "cleanField x = Inr s"
  shows "trimmed s \<and> (everyBracketCited (sourceText x) \<longrightarrow> \<not> hasCitation s)"
proof -
  have s: "s = trim (replaceAll matchCitation (sourceText x))"
    using assms
    by (auto simp: cleanField_def sourceText_def truthyOpt_def
        split: if_splits option.splits json.splits)
  have "\<not> hasCitation s" if "everyBracketCited (sourceText x)"
  proof -
    have "LBRACKET \<notin> set (replaceAll matchCitation (sourceText x))"
      using that by (rule replaceAll_citations_no_bracket)
    then have "LBRACKET \<notin> set s"
      using set_trim s by blast
    then show ?thesis
      unfolding hasCitation_def by (rule no_bracket_no_citation)
  qed
  then show ?thesis by (simp add: s trimmed_trim)
qed

lemma mapThrowing_all:
  "mapThrowing f xs = Inr ys \<Longrightarrow> (\<And>x y. f x = Inr y \<Longrightarrow> Q y) \<Longrightarrow> list_all Q ys"
proof (induction xs arbitrary: ys)
  case Nil
  then show ?case by simp
next
  case (Cons x xs)
  then show ?case by (auto split: sum.splits)
qed

lemma cleanPaa_fields:
  assumes "cleanPaa paa = Inr item"
  shows "cleaned (question item) \<and> cleaned (answer item) \<and> cleaned (content_gap_analysis item)"
  using assms unfolding cleanPaa_def cleaned_def
  by (auto split: sum.splits)

lemma cleanSerp_props:
  assumes "cleanSerp result = Inr serp"
  shows "length (people_also_ask serp) \<le> 5 \<and> list_all cleaned (serpStrings serp)"
proof -
  from assms obtain searches paas cleanedPaas cleanedSearches where
    paa: "mapThrowing cleanPaa paas = Inr cleanedPaas"
    and rel: "mapThrowing (\<lambda>search. cleanField (Some search)) searches = Inr cleanedSearches"
    and serp: "serp = \<lparr>related_searches = cleanedSearches, people_also_ask = take 5 cleanedPaas\<rparr>"
    unfolding cleanSerp_def
    by (auto simp: Let_def split: if_splits sum.splits option.splits json.splits)
  have r: "list_all cleaned cleanedSearches"
    using rel by (rule mapThrowing_all) (auto simp: cleaned_def)
  have "list_all (\<lambda>item. cleaned (question item) \<and> cleaned (answer item)
            \<and> cleaned (content_gap_analysis item)) cleanedPaas"
    using paa by (rule mapThrowing_all) (rule cleanPaa_fields)
  then have "list_all (\<lambda>item. cleaned (question item) \<and> cleaned (answer item)
            \<and> cleaned (content_gap_analysis item)) (take 5 cleanedPaas)"
    by (auto simp: list_all_iff dest: in_set_takeD)
  then have p: "list_all cleaned
      (concat (map (\<lambda>paa. [question paa, answer paa, content_gap_analysis paa]) (take 5 cleanedPaas)))"
    by (auto simp: list_all_iff)
  from r p show ?thesis
    by (simp add: serp serpStrings_def)
qed

lemma generateRelatedKeywords_cleanSerp:
  assumes "generateRelatedKeywords JSON_parse generated kw = Inr serp"
  shows "\<exists>result. cleanSerp result = Inr serp"
  using assms unfolding generateRelatedKeywords_def
  by (auto split: if_splits sum.splits option.splits)

lemmas cleaning_defs = cleanField_def truthyOpt_def matchCitation_def citationTail.simps skipSpace_def
  isDigit_def trim_def isWhiteSpace_def js_def

text \<open>
  Claim C10 says that no string of the result holds a citation marker. The replacement of
  line 265 makes one pass from left to right: in \<^verbatim>\<open>[1[2]]\<close> it removes the inner marker
  \<^verbatim>\<open>[2]\<close>, and what is left, \<^verbatim>\<open>[1]\<close>, is a marker again.
\<close>

theorem nested_citation_survives:
  "cleanField (Some (JStr (js ''[1[2]]''))) = Inr (js ''[1]'')
   \<and> hasCitation (js ''[1]'')
   \<and> generateRelatedKeywords referenceParse (Inr (Some nestedCitationText)) (js ''seo'')
       = Inr \<lparr>related_searches = [js ''see [1]''], people_also_ask = []\<rparr>"
proof -
  have a: "cleanField (Some (JStr (js ''[1[2]]''))) = Inr (js ''[1]'')"
    by (simp add: cleaning_defs)
  have b: "hasCitation (js ''[1]'')"
    by (simp add: hasCitation_def cleaning_defs)
  have kw: "trim (js ''seo'') \<noteq> []"
    by (simp add: trim_def js_def isWhiteSpace_def)
  have ex: \<open>extractJsonFromText referenceParse nestedCitationText
      = Inr (JObj [(js ''related_searches'', JArr [JStr (js ''see [1[2]]'')]),
                   (js ''people_also_ask'', JArr [])])\<close>
    by (simp add: nestedCitationText_def extractJsonFromText_def parseCandidate_def extractor_defs
        reference_defs)
  have cl: "cleanSerp (JObj [(js ''related_searches'', JArr [JStr (js ''see [1[2]]'')]),
                   (js ''people_also_ask'', JArr [])])
      = Inr \<lparr>related_searches = [js ''see [1]''], people_also_ask = []\<rparr>"
    by (simp add: cleanSerp_def cleaning_defs)
  have c: "generateRelatedKeywords referenceParse (Inr (Some nestedCitationText)) (js ''seo'')
       = Inr \<lparr>related_searches = [js ''see [1]''], people_also_ask = []\<rparr>"
    using kw by (simp add: generateRelatedKeywords_def ex cl)
  from a b c show ?thesis by simp
qed

lemma skipSpace_append: "s = [] \<or> hd s = LBRACKET \<Longrightarrow> skipSpace (r @ s) = skipSpace r @ s"
  by (cases r; cases s) (auto simp: skipSpace_def)

lemma digits_append:
  "s = [] \<or> hd s = LBRACKET \<Longrightarrow> takeWhile isDigit (r @ s) = takeWhile isDigit r"
proof (induction r)
  case Nil
  then show ?case by (cases s) (auto simp: isDigit_def)
next
  case (Cons c r)
  then show ?case by simp
qed

lemma citationTail_Nil: "citationTail [] = None"
  by (subst citationTail.simps) simp

lemma citationTail_comma:
  assumes "r1 = skipSpace r" and "d = length (takeWhile isDigit r1)"
  shows "citationTail (COMMA # r)
     = (if d = 0 then None
        else map_option (\<lambda>n. 1 + (length r - length r1) + d + n) (citationTail (drop d r1)))"
  by (subst citationTail.simps) (simp add: Let_def assms)

lemma citationTail_other:
  "c \<noteq> COMMA \<Longrightarrow> citationTail (c # r) = (if c = RBRACKET then Some 1 else None)"
  by (subst citationTail.simps) simp

lemma citationTail_append:
  "s = [] \<or> hd s = LBRACKET \<Longrightarrow> citationTail (t @ s) = citationTail t"
proof (induction t rule: citationTail.induct)
  case (1 t)
  show ?case
  proof (cases t)
    case Nil
    have "citationTail s = None"
    proof (cases s)
      case Nil
      then show ?thesis by (simp add: citationTail_Nil)
    next
      case (Cons x xs)
      with "1.prems" have "x = LBRACKET" by simp
      then show ?thesis by (simp add: Cons citationTail_other)
    qed
    then show ?thesis by (simp add: Nil citationTail_Nil)
  next
    case (Cons c r)
    show ?thesis
    proof (cases "c = COMMA")
      case False
      then show ?thesis by (simp add: Cons citationTail_other)
    next
      case True
      define r1 where "r1 = skipSpace r"
      define d where "d = length (takeWhile isDigit r1)"
      have r1': "r1 @ s = skipSpace (r @ s)"
        using "1.prems" by (simp add: r1_def skipSpace_append)
      have d': "d = length (takeWhile isDigit (r1 @ s))"
        using "1.prems" by (simp add: d_def digits_append)
      have dle: "d \<le> length r1"
        unfolding d_def by (rule length_takeWhile_le)
      have lhs: "citationTail (COMMA # r @ s)
          = (if d = 0 then None
             else map_option (\<lambda>n. 1 + (length (r @ s) - length (r1 @ s)) + d + n)
                    (citationTail (drop d (r1 @ s))))"
        using r1' d' by (rule citationTail_comma)
      have rhs: "citationTail (COMMA # r)
          = (if d = 0 then None
             else map_option (\<lambda>n. 1 + (length r - length r1) + d + n) (citationTail (drop d r1)))"
        using r1_def d_def by (rule citationTail_comma)
      show ?thesis
      proof (cases "d = 0")
        case True
        then show ?thesis
          using \<open>c = COMMA\<close> by (simp add: Cons lhs rhs)
      next
        case False
        have "length (takeWhile isDigit (skipSpace r)) \<noteq> 0"
          using False unfolding d_def r1_def .
        from "1.IH" [OF Cons \<open>c = COMMA\<close> refl refl this "1.prems"]
        have ih: "citationTail (drop d r1 @ s) = citationTail (drop d r1)"
          unfolding d_def r1_def .
        have dr: "drop d (r1 @ s) = drop d r1 @ s"
          using dle by simp
        have len: "length (r @ s) - length (r1 @ s) = length r - length r1"
          by simp
        show ?thesis
          using \<open>c = COMMA\<close> False
          by (simp only: Cons append_Cons lhs rhs if_False dr ih len)
      qed
    qed
  qed
qed

lemma skipSpace_length: "length (skipSpace r) \<le> length r"
  by (cases r) (simp_all add: skipSpace_def)

lemma citationTail_le: "citationTail t = Some n \<Longrightarrow> n \<le> length t"
proof (induction t arbitrary: n rule: citationTail.induct)
  case (1 t)
  show ?case
  proof (cases t)
    case Nil
    with "1.prems" show ?thesis by (simp add: citationTail_Nil)
  next
    case (Cons c r)
    show ?thesis
    proof (cases "c = COMMA")
      case False
      with "1.prems" show ?thesis
        by (simp add: Cons citationTail_other split: if_splits)
    next
      case True
      define r1 where "r1 = skipSpace r"
      define d where "d = length (takeWhile isDigit r1)"
      have eq: "citationTail (COMMA # r)
          = (if d = 0 then None
             else map_option (\<lambda>n. 1 + (length r - length r1) + d + n) (citationTail (drop d r1)))"
        using r1_def d_def by (rule citationTail_comma)
      from "1.prems" have some: "citationTail (COMMA # r) = Some n"
        by (simp only: Cons True)
      have d0: "d \<noteq> 0"
        using some eq by (cases "d = 0") simp_all
      with some eq obtain k where
        k: "citationTail (drop d r1) = Some k" and n: "n = 1 + (length r - length r1) + d + k"
        by auto
      have "length (takeWhile isDigit (skipSpace r)) \<noteq> 0"
        using d0 unfolding d_def r1_def .
      moreover have "citationTail (drop (length (takeWhile isDigit (skipSpace r))) (skipSpace r)) = Some k"
        using k unfolding d_def r1_def .
      ultimately have "k \<le> length (drop (length (takeWhile isDigit (skipSpace r))) (skipSpace r))"
        using "1.IH" [OF Cons True refl refl] by blast
      then have kle: "k \<le> length r1 - d"
        by (simp add: d_def r1_def)
      have "d \<le> length r1" unfolding d_def by (rule length_takeWhile_le)
      moreover have "length r1 \<le> length r" unfolding r1_def by (rule skipSpace_length)
      ultimately show ?thesis using kle by (simp add: n Cons)
    qed
  qed
qed

lemma matchCitation_Cons:
  assumes "d = length (takeWhile isDigit r)"
  shows "matchCitation (LBRACKET # r)
     = (if d = 0 then None else map_option (\<lambda>n. 1 + d + n) (citationTail (drop d r)))"
  by (cases "citationTail (drop (length (takeWhile isDigit r)) r)")
    (simp_all add: matchCitation_def Let_def assms)

lemma matchCitation_other: "c \<noteq> LBRACKET \<Longrightarrow> matchCitation (c # r) = None"
  by (simp add: matchCitation_def)

lemma matchCitation_le: "matchCitation a = Some n \<Longrightarrow> n \<le> length a"
proof -
  assume m: "matchCitation a = Some n"
  then obtain c r where a: "a = c # r" by (cases a) (auto simp: matchCitation_def)
  have c: "c = LBRACKET"
    using m a matchCitation_other [of c r] by (cases "c = LBRACKET") simp_all
  define d where "d = length (takeWhile isDigit r)"
  have eq: "matchCitation (LBRACKET # r)
     = (if d = 0 then None else map_option (\<lambda>n. 1 + d + n) (citationTail (drop d r)))"
    using d_def by (rule matchCitation_Cons)
  from m have some: "matchCitation (LBRACKET # r) = Some n" by (simp only: a c)
  have d0: "d \<noteq> 0" using some eq by (cases "d = 0") simp_all
  with some eq obtain k where k: "citationTail (drop d r) = Some k" and n: "n = 1 + d + k"
    by auto
  have "k \<le> length (drop d r)" using k by (rule citationTail_le)
  moreover have "d \<le> length r" unfolding d_def by (rule length_takeWhile_le)
  ultimately show ?thesis by (simp add: n a)
qed

lemma matchCitation_append:
  assumes "s = [] \<or> hd s = LBRACKET" and "a \<noteq> []"
  shows "matchCitation (a @ s) = matchCitation a"
proof -
  from assms(2) obtain c r where a: "a = c # r" by (cases a) auto
  show ?thesis
  proof (cases "c = LBRACKET")
    case False
    then show ?thesis by (simp add: a matchCitation_other)
  next
    case True
    define d where "d = length (takeWhile isDigit r)"
    have d': "d = length (takeWhile isDigit (r @ s))"
      using assms(1) by (simp add: d_def digits_append)
    have dle: "d \<le> length r" unfolding d_def by (rule length_takeWhile_le)
    have lhs: "matchCitation (LBRACKET # r @ s)
       = (if d = 0 then None else map_option (\<lambda>n. 1 + d + n) (citationTail (drop d (r @ s))))"
      using d' by (rule matchCitation_Cons)
    have rhs: "matchCitation (LBRACKET # r)
       = (if d = 0 then None else map_option (\<lambda>n. 1 + d + n) (citationTail (drop d r)))"
      using d_def by (rule matchCitation_Cons)
    have dr: "drop d (r @ s) = drop d r @ s" using dle by simp
    have tail: "citationTail (drop d r @ s) = citationTail (drop d r)"
      using assms(1) by (rule citationTail_append)
    show ?thesis
      by (simp only: a True append_Cons lhs rhs dr tail)
  qed
qed

lemma replaceAll_append_aux:
  "m = matchCitation \<Longrightarrow> s = [] \<or> hd s = LBRACKET \<Longrightarrow>
   replaceAll m (a @ s) = replaceAll m a @ replaceAll m s"
proof (induction m a rule: replaceAll.induct)
  case (1 m)
  then show ?case by simp
next
  case (2 m c cs)
  have same: "m ((c # cs) @ s) = m (c # cs)"
    using "2.prems" matchCitation_append [of s "c # cs"] by simp
  show ?case
  proof (cases "m (c # cs)")
    case None
    with same "2.IH"(1) "2.prems" show ?thesis by simp
  next
    case (Some n)
    then have n0: "n \<noteq> 0" and nle: "n \<le> length (c # cs)"
      using "2.prems"(1) matchCitation_Some_bracket matchCitation_le by blast+
    then have dr: "drop (n - 1) (cs @ s) = drop (n - 1) cs @ s" by simp
    from same Some n0 "2.IH"(3) [OF Some n0 "2.prems"] dr show ?thesis by simp
  qed
qed

lemma citation_deleted:
  assumes "matchCitation (m @ b) = Some (length m)"
  shows "replaceAll matchCitation (a @ m @ b) = replaceAll matchCitation a @ replaceAll matchCitation b"
proof -
  from matchCitation_Some_bracket [OF assms]
  have hd: "hd (m @ b) = LBRACKET" and ne: "m @ b \<noteq> []" and len: "length m \<noteq> 0" by simp_all
  then obtain c m' where m: "m = c # m'" by (cases m) auto
  have "replaceAll matchCitation (a @ m @ b)
      = replaceAll matchCitation a @ replaceAll matchCitation (m @ b)"
    using hd by (intro replaceAll_append_aux) simp_all
  moreover have "replaceAll matchCitation (m @ b) = replaceAll matchCitation b"
    using assms by (simp add: m)
  ultimately show ?thesis by simp
qed

lemma no_citation_unchanged: "\<not> hasCitation s \<Longrightarrow> replaceAll matchCitation s = s"
  unfolding hasCitation_def by (induction s) simp_all

lemma mapThrowing_map:
  "mapThrowing f xs = Inr ys \<Longrightarrow> (\<And>x y. f x = Inr y \<Longrightarrow> y = g x) \<Longrightarrow> ys = map g xs"
proof (induction xs arbitrary: ys)
  case Nil
  then show ?case by simp
next
  case (Cons x xs)
  then show ?case by (auto split: sum.splits)
qed

lemma cleanField_eq:
  "cleanField x = Inr s \<Longrightarrow> s = trim (replaceAll matchCitation (sourceText x))"
  by (auto simp: cleanField_def sourceText_def truthyOpt_def
      split: if_splits option.splits json.splits)

lemma cleanPaa_eq:
  assumes "cleanPaa paa = Inr item"
  shows "item = \<lparr>question = trim (replaceAll matchCitation (propText paa (js ''question''))),
                 answer = trim (replaceAll matchCitation (propText paa (js ''answer''))),
                 content_gap_analysis =
                   trim (replaceAll matchCitation (propText paa (js ''content_gap_analysis'')))\<rparr>"
proof -
  from assms obtain q a g q' a' g' where
    q: "getProp paa (js ''question'') = Inr q" "cleanField q = Inr q'"
    and a: "getProp paa (js ''answer'') = Inr a" "cleanField a = Inr a'"
    and g: "getProp paa (js ''content_gap_analysis'') = Inr g" "cleanField g = Inr g'"
    and item: "item = \<lparr>question = q', answer = a', content_gap_analysis = g'\<rparr>"
    unfolding cleanPaa_def by (auto split: sum.splits)
  show ?thesis
    using cleanField_eq [OF q(2)] cleanField_eq [OF a(2)] cleanField_eq [OF g(2)]
    by (simp add: item propText_def q(1) a(1) g(1))
qed

lemma cleanSerp_eq:
  assumes "cleanSerp result = Inr serp"
  shows "\<exists>searches paas.
      getProp result (js ''related_searches'') = Inr (Some (JArr searches))
    \<and> getProp result (js ''people_also_ask'') = Inr (Some (JArr paas))
    \<and> related_searches serp
        = map (\<lambda>search. trim (replaceAll matchCitation (sourceText (Some search)))) searches
    \<and> people_also_ask serp
        = take 5 (map (\<lambda>paa.
            \<lparr>question = trim (replaceAll matchCitation (propText paa (js ''question''))),
             answer = trim (replaceAll matchCitation (propText paa (js ''answer''))),
             content_gap_analysis =
               trim (replaceAll matchCitation (propText paa (js ''content_gap_analysis'')))\<rparr>) paas)"
proof -
  from assms obtain searches paas cleanedPaas cleanedSearches where
    gs: "getProp result (js ''related_searches'') = Inr (Some (JArr searches))"
    and gp: "getProp result (js ''people_also_ask'') = Inr (Some (JArr paas))"
    and paa: "mapThrowing cleanPaa paas = Inr cleanedPaas"
    and rel: "mapThrowing (\<lambda>search. cleanField (Some search)) searches = Inr cleanedSearches"
    and serp: "serp = \<lparr>related_searches = cleanedSearches, people_also_ask = take 5 cleanedPaas\<rparr>"
    unfolding cleanSerp_def
    by (auto simp: Let_def split: if_splits sum.splits option.splits json.splits)
  have r: "cleanedSearches
      = map (\<lambda>search. trim (replaceAll matchCitation (sourceText (Some search)))) searches"
    using rel by (rule mapThrowing_map) (rule cleanField_eq)
  have p: "cleanedPaas = map (\<lambda>paa.
            \<lparr>question = trim (replaceAll matchCitation (propText paa (js ''question''))),
             answer = trim (replaceAll matchCitation (propText paa (js ''answer''))),
             content_gap_analysis =
               trim (replaceAll matchCitation (propText paa (js ''content_gap_analysis'')))\<rparr>) paas"
    using paa by (rule mapThrowing_map) (rule cleanPaa_eq)
  show ?thesis
    using gs gp r p by (simp add: serp)
qed

lemma generateRelatedKeywords_source:
  assumes "generateRelatedKeywords JSON_parse generated kw = Inr serp"
  shows "\<exists>text' result. generated = Inr (Some text')
      \<and> extractJsonFromText JSON_parse text' = Inr result \<and> cleanSerp result = Inr serp"
  using assms unfolding generateRelatedKeywords_def
  by (auto split: if_splits sum.splits option.splits)

text \<open>
  Claim C10, amended. Whenever \<open>generateRelatedKeywords\<close> returns, the model answered with
  a text whose parsed value holds the arrays \<open>related_searches\<close> and \<open>people_also_ask\<close>;
  the result holds at most 5 questions; each of its strings is the field of the parsed
  value at the same place (the empty string when that field is absent or falsy), cleaned
  by \<open>replace\<close> and then \<open>trim\<close>, and has no white space at either end. The cleaning
  deletes every citation marker that occurs in the field, whatever stands before and after
  it, and keeps a text in which no marker occurs as it is: no marker of the source field
  survives. (Deleting a marker can join the text on its two sides into a new one, as the
  example above shows.)
\<close>

theorem generateRelatedKeywords_cleaning:
  assumes "generateRelatedKeywords JSON_parse generated kw = Inr serp"
  shows "(\<exists>text' result searches paas.
          generated = Inr (Some text')
        \<and> extractJsonFromText JSON_parse text' = Inr result
        \<and> getProp result (js ''related_searches'') = Inr (Some (JArr searches))
        \<and> getProp result (js ''people_also_ask'') = Inr (Some (JArr paas))
        \<and> related_searches serp
            = map (\<lambda>search. trim (replaceAll matchCitation (sourceText (Some search)))) searches
        \<and> people_also_ask serp
            = take 5 (map (\<lambda>paa.
                \<lparr>question = trim (replaceAll matchCitation (propText paa (js ''question''))),
                 answer = trim (replaceAll matchCitation (propText paa (js ''answer''))),
                 content_gap_analysis =
                   trim (replaceAll matchCitation (propText paa (js ''content_gap_analysis'')))\<rparr>)
                paas))
       \<and> length (people_also_ask serp) \<le> 5
       \<and> (\<forall>s\<in>set (serpStrings serp). trimmed s)
       \<and> (matchCitation (m @ b) = Some (length m) \<longrightarrow>
            replaceAll matchCitation (a @ m @ b)
              = replaceAll matchCitation a @ replaceAll matchCitation b)
       \<and> (\<not> hasCitation t \<longrightarrow> replaceAll matchCitation t = t)"
proof -
  from generateRelatedKeywords_source [OF assms]
  obtain text' result where src: "generated = Inr (Some text')"
    "extractJsonFromText JSON_parse text' = Inr result" and clean: "cleanSerp result = Inr serp"
    by blast
  from cleanSerp_eq [OF clean] src
  have first: "\<exists>text' result searches paas.
          generated = Inr (Some text')
        \<and> extractJsonFromText JSON_parse text' = Inr result
        \<and> getProp result (js ''related_searches'') = Inr (Some (JArr searches))
        \<and> getProp result (js ''people_also_ask'') = Inr (Some (JArr paas))
        \<and> related_searches serp
            = map (\<lambda>search. trim (replaceAll matchCitation (sourceText (Some search)))) searches
        \<and> people_also_ask serp
            = take 5 (map (\<lambda>paa.
                \<lparr>question = trim (replaceAll matchCitation (propText paa (js ''question''))),
                 answer = trim (replaceAll matchCitation (propText paa (js ''answer''))),
                 content_gap_analysis =
                   trim (replaceAll matchCitation (propText paa (js ''content_gap_analysis'')))\<rparr>)
                paas)"
    by blast
  from cleanSerp_props [OF clean]
  have len: "length (people_also_ask serp) \<le> 5" and all: "list_all cleaned (serpStrings serp)"
    by simp_all
  have tr: "\<forall>s\<in>set (serpStrings serp). trimmed s"
  proof
    fix s assume "s \<in> set (serpStrings serp)"
    with all have "cleaned s" by (simp add: list_all_iff)
    then obtain x where "cleanField x = Inr s" by (auto simp: cleaned_def)
    then show "trimmed s" using cleanField_props by blast
  qed
  from first len tr citation_deleted no_citation_unchanged show ?thesis by blast
qed

lemma cited_run:
  "generateRelatedKeywords referenceParse (Inr (Some citedText)) (js ''seo'') = Inr citedSerp"
proof -
  have kw: "trim (js ''seo'') \<noteq> []"
    by (simp add: trim_def js_def isWhiteSpace_def)
  have ex: \<open>extractJsonFromText referenceParse citedText
      = Inr (JObj [(js ''related_searches'', JArr [JStr (js ''seo tips [1]''), JStr (js '' keyword tools [2, 3] '')]),
                   (js ''people_also_ask'',
                    JArr [JObj [(js ''question'', JStr (js ''q1 [1]''))],
                          JObj [(js ''question'', JStr (js ''q2'')), (js ''answer'', JStr (js ''a2 [2,3]''))],
                          JObj [], JObj [], JObj [],
                          JObj [(js ''question'', JStr (js ''q6''))]])])\<close>
    by (simp add: citedText_def extractJsonFromText_def parseCandidate_def extractor_defs
        reference_defs)
  have cl: "cleanSerp (JObj [(js ''related_searches'', JArr [JStr (js ''seo tips [1]''), JStr (js '' keyword tools [2, 3] '')]),
                   (js ''people_also_ask'',
                    JArr [JObj [(js ''question'', JStr (js ''q1 [1]''))],
                          JObj [(js ''question'', JStr (js ''q2'')), (js ''answer'', JStr (js ''a2 [2,3]''))],
                          JObj [], JObj [], JObj [],
                          JObj [(js ''question'', JStr (js ''q6''))]])])
      = Inr citedSerp"
    by (simp add: cleanSerp_def cleanPaa_def citedSerp_def cleaning_defs)
  show ?thesis
    using kw by (simp add: generateRelatedKeywords_def ex cl)
qed

theorem generateRelatedKeywords_cleaning_witness:
  "generateRelatedKeywords referenceParse (Inr (Some citedText)) (js ''seo'') = Inr citedSerp
   \<and> length (people_also_ask citedSerp) \<le> 5
   \<and> replaceAll matchCitation (js ''a [1] b [2, 3]'') = js ''a  b ''
   \<and> matchCitation (js ''[12, 3,4] x'') = Some 9
   \<and> matchCitation (js ''[1,  2]'') = None
   \<and> matchCitation (js ''[]'') = None"
proof -
  have m: "matchCitation (js ''[1]'' @ js '' b [2, 3]'') = Some (length (js ''[1]''))"
    "matchCitation (js ''[2, 3]'' @ []) = Some (length (js ''[2, 3]''))"
    "\<not> hasCitation (js ''a '')" "\<not> hasCitation (js '' b '')"
    by (simp_all add: hasCitation_def cleaning_defs)
  from generateRelatedKeywords_cleaning [OF cited_run, of "js ''[1]''" "js '' b [2, 3]''" "js ''a ''" "js ''a ''"]
    m(1,3)
  have one: "length (people_also_ask citedSerp) \<le> 5"
    and two: "replaceAll matchCitation (js ''a '' @ js ''[1]'' @ js '' b [2, 3]'')
      = js ''a '' @ replaceAll matchCitation (js '' b [2, 3]'')"
    by simp_all
  from generateRelatedKeywords_cleaning [OF cited_run, of "js ''[2, 3]''" "[]" "js '' b ''" "js '' b ''"]
    m(2,4)
  have three: "replaceAll matchCitation (js '' b '' @ js ''[2, 3]'' @ []) = js '' b ''"
    by simp
  have four: "matchCitation (js ''[12, 3,4] x'') = Some 9" "matchCitation (js ''[1,  2]'') = None"
    "matchCitation (js ''[]'') = None"
    by (simp_all add: cleaning_defs)
  have "replaceAll matchCitation (js ''a [1] b [2, 3]'') = js ''a  b ''"
    using two three by (simp add: js_def)
  with cited_run one four show ?thesis by simp
qed

end
